theory Spec2Isabelle
  imports Main "HOL-Library.Word"
begin

section \<open>Runtime faults\<close>

text \<open>
  A Go panic is a value of the model: every function that dereferences a pointer returns
  \<open>Inl NilPointerDereference\<close> where the pointer is nil, every function that indexes a
  slice returns \<open>Inl IndexOutOfRange\<close> where the index is not below the length, and
  \<open>Inr v\<close> where the source returns \<open>v\<close>. \<open>InvalidAddress\<close> is not a Go fault: it
  is the answer of the store model of section \<open>Copy\<close> to an address that holds no object,
  which a Go program cannot build.
\<close>

datatype panic = NilPointerDereference | IndexOutOfRange | InvalidAddress

type_synonym 'a result = "panic + 'a"

section \<open>IP address value (package net)\<close>

text \<open>
  The generated message \<open>api.IP\<close> of net.proto carries \<open>Higher\<close>, \<open>Lower\<close> and a
  \<open>Version\<close> of the enum \<open>IP_Version\<close> (\<open>IP_IPv4 = 0\<close>, \<open>IP_IPv6 = 1\<close>).
\<close>

datatype IP_Version = IP_IPv4 | IP_IPv6

record api_IP =
  Higher :: "64 word"
  Lower :: "64 word"
  Version :: IP_Version

text \<open>
  Modelled from the spec: the struct \<open>net.IP\<close> is not among the sources. The spec
  describes it as a 128-bit value stored as high and low 64-bit halves plus a version tag.
\<close>

record IP =
  higher :: "64 word"
  lower :: "64 word"
  version :: IP_Version

text \<open>
  Modelled from the spec: \<open>net.IP.Compare\<close> is not among the sources. The spec gives a
  total ordering, bit-wise on the 128-bit value, with the version as a distinguishing
  factor for mixed comparisons: the high half decides, then the low half, and two addresses
  with the same 128 bits are told apart by their version (IPv4 before IPv6). The result
  is \<open>-1\<close>, \<open>0\<close> or \<open>1\<close>, as \<open>Select\<close> tests it.
\<close>

definition Compare_value :: "IP \<Rightarrow> IP \<Rightarrow> int" where
  "Compare_value ip other =
     (if higher ip = higher other then
        (if lower ip = lower other then
           (if version ip = version other then 0
            else if version ip = IP_IPv6 then 1
            else - 1)
         else if lower ip > lower other then 1
         else - 1)
      else if higher ip > higher other then 1
      else - 1)"

text \<open>
  \<open>Source\<close> and \<open>NextHop\<close> are pointers (\<open>*bnet.IP\<close>); \<open>Compare\<close> reads the fields
  of both addresses, so a nil receiver or a nil argument is a nil pointer dereference.
\<close>

definition Compare :: "IP option \<Rightarrow> IP option \<Rightarrow> int result" where
  "Compare ip other =
     (case ip of
        None \<Rightarrow> Inl NilPointerDereference
      | Some x \<Rightarrow>
          (case other of
             None \<Rightarrow> Inl NilPointerDereference
           | Some y \<Rightarrow> Inr (Compare_value x y)))"

section \<open>Path attributes (package types)\<close>

text \<open>
  Modelled from the spec: the package \<open>types\<close> is not among the sources. An AS path is an
  ordered sequence of segments, each a type (SET or SEQUENCE) and an ordered sequence of
  32-bit AS numbers; a large community is a triplet of 32-bit values; an unknown attribute
  preserves its raw flags, type code and payload; an aggregator is an AS number and an
  address.
\<close>

datatype ASPathSegmentType = ASSet | ASSequence

record ASPathSegment =
  Type :: ASPathSegmentType
  ASNs :: "32 word list"

type_synonym ASPath = "ASPathSegment list"

record LargeCommunity =
  GlobalAdministrator :: "32 word"
  DataPart1 :: "32 word"
  DataPart2 :: "32 word"

record UnknownPathAttribute =
  Optional :: bool
  Transitive :: bool
  Partial :: bool
  TypeCode :: "8 word"
  Value :: "8 word list"

record Aggregator =
  Address :: "32 word"
  ASN :: "32 word"

text \<open>
  Modelled from the spec: \<open>types.ASPath.Length\<close> is not among the sources. The effective
  length counts a SET segment as 1 whatever its member count, and a SEQUENCE segment as
  its number of AS numbers. The result is a \<open>uint16\<close>, as the field \<open>ASPathLen\<close> is.
\<close>

fun ASPath_Length :: "ASPath \<Rightarrow> 16 word" where
  "ASPath_Length [] = 0"
| "ASPath_Length (seg # segs) =
     (if Type seg = ASSet then 1 else of_nat (length (ASNs seg))) + ASPath_Length segs"

section \<open>BGPPathA and BGPPath (route/bgp\_path.go)\<close>

text \<open>
  The structs as the source declares them. A Go pointer field is an \<open>option\<close>:
  \<open>None\<close> is nil. A slice behind a pointer (\<open>*[]uint32\<close>) is the list it holds.
\<close>

record BGPPathA =
  NextHop :: "IP option"
  Source :: "IP option"
  LocalPref :: "32 word"
  MED :: "32 word"
  BGPIdentifier :: "32 word"
  OriginatorID :: "32 word"
  Aggregator :: "Aggregator option"
  EBGP :: bool
  AtomicAggregate :: bool
  Origin :: "8 word"

record BGPPath =
  BGPPathA :: "BGPPathA option"
  ASPath :: "ASPath option"
  ClusterList :: "32 word list option"
  Communities :: "32 word list option"
  LargeCommunities :: "LargeCommunity list option"
  UnknownAttributes :: "UnknownPathAttribute list option"
  PathIdentifier :: "32 word"
  ASPathLen :: "16 word"

section \<open>Select\<close>

text \<open>
  \<open>Select\<close> returns an \<open>int8\<close> that is one of 1, -1 and 0; the model returns it as an
  \<open>int\<close>. The branches are the source's, in its order. The receiver \<open>b\<close> and the
  argument \<open>c\<close> are paths (non-nil); their pointer fields may be nil.
\<close>

definition Select :: "BGPPath \<Rightarrow> BGPPath \<Rightarrow> int result" where
  "Select b c =
     (case BGPPathA c of
        None \<Rightarrow> Inl NilPointerDereference
      | Some ca \<Rightarrow>
     (case BGPPathA b of
        None \<Rightarrow> Inl NilPointerDereference
      | Some ba \<Rightarrow>
          if LocalPref ca < LocalPref ba then Inr 1
          else if LocalPref ca > LocalPref ba then Inr (- 1)
          else if ASPathLen c > ASPathLen b then Inr 1
          else if ASPathLen c < ASPathLen b then Inr (- 1)
          else if Origin ca > Origin ba then Inr 1
          else if Origin ca < Origin ba then Inr (- 1)
          else if MED ca > MED ba then Inr 1
          else if MED ca < MED ba then Inr (- 1)
          else if EBGP ca \<and> \<not> EBGP ba then Inr (- 1)
          else if \<not> EBGP ca \<and> EBGP ba then Inr 1
          else
            let bgpIdentifierC =
                  (if OriginatorID ca \<noteq> 0 then OriginatorID ca else BGPIdentifier ca);
                bgpIdentifierB =
                  (if OriginatorID ba \<noteq> 0 then OriginatorID ba else BGPIdentifier ba)
            in
              if bgpIdentifierC < bgpIdentifierB then Inr 1
              else if bgpIdentifierC > bgpIdentifierB then Inr (- 1)
              else
                (case ClusterList c of
                   None \<Rightarrow> Inl NilPointerDereference
                 | Some clC \<Rightarrow>
                (case ClusterList b of
                   None \<Rightarrow> Inl NilPointerDereference
                 | Some clB \<Rightarrow>
                     if length clC < length clB then Inr 1
                     else if length clC > length clB then Inr (- 1)
                     else
                       (case Compare (Source ca) (Source ba) of
                          Inl e \<Rightarrow> Inl e
                        | Inr s \<Rightarrow>
                            if s = - 1 then Inr 1
                            else if s = 1 then Inr (- 1)
                            else
                              (case Compare (NextHop ca) (NextHop ba) of
                                 Inl e \<Rightarrow> Inl e
                               | Inr n \<Rightarrow>
                                   if n = - 1 then Inr 1
                                   else if n = 1 then Inr (- 1)
                                   else Inr 0))))))"

text \<open>\<open>Equal\<close>: the path identifiers are compared first; only then is \<open>Select\<close> called.\<close>

definition Equal :: "BGPPath \<Rightarrow> BGPPath \<Rightarrow> bool result" where
  "Equal b c =
     (if PathIdentifier b \<noteq> PathIdentifier c then Inr False
      else (case Select b c of Inl e \<Rightarrow> Inl e | Inr r \<Rightarrow> Inr (r = 0)))"

text \<open>
  The containers \<open>Select\<close> dereferences: the attribute set, its two addresses, and
  the cluster list.
\<close>

definition containers_present :: "BGPPath \<Rightarrow> bool" where
  "containers_present b =
     (case BGPPathA b of
        None \<Rightarrow> False
      | Some a \<Rightarrow> Source a \<noteq> None \<and> NextHop a \<noteq> None \<and> ClusterList b \<noteq> None)"

section \<open>ECMP, betterECMP and better\<close>

definition ECMP :: "BGPPath \<Rightarrow> BGPPath \<Rightarrow> bool result" where
  "ECMP b c =
     (case BGPPathA b of
        None \<Rightarrow> Inl NilPointerDereference
      | Some ba \<Rightarrow>
     (case BGPPathA c of
        None \<Rightarrow> Inl NilPointerDereference
      | Some ca \<Rightarrow>
          Inr (LocalPref ba = LocalPref ca \<and> ASPathLen b = ASPathLen c \<and>
               MED ba = MED ca \<and> Origin ba = Origin ca)))"

definition betterECMP :: "BGPPath \<Rightarrow> BGPPath \<Rightarrow> bool result" where
  "betterECMP b c =
     (case BGPPathA c of
        None \<Rightarrow> Inl NilPointerDereference
      | Some ca \<Rightarrow>
     (case BGPPathA b of
        None \<Rightarrow> Inl NilPointerDereference
      | Some ba \<Rightarrow>
          if LocalPref ca < LocalPref ba then Inr False
          else if LocalPref ca > LocalPref ba then Inr True
          else if ASPathLen c > ASPathLen b then Inr False
          else if ASPathLen c < ASPathLen b then Inr True
          else if Origin ca > Origin ba then Inr False
          else if Origin ca < Origin ba then Inr True
          else if MED ca > MED ba then Inr False
          else if MED ca < MED ba then Inr True
          else Inr False))"

definition better :: "BGPPath \<Rightarrow> BGPPath \<Rightarrow> bool result" where
  "better b c =
     (case betterECMP b c of
        Inl e \<Rightarrow> Inl e
      | Inr True \<Rightarrow> Inr True
      | Inr False \<Rightarrow>
     (case BGPPathA c of
        None \<Rightarrow> Inl NilPointerDereference
      | Some ca \<Rightarrow>
     (case BGPPathA b of
        None \<Rightarrow> Inl NilPointerDereference
      | Some ba \<Rightarrow>
          if BGPIdentifier ca < BGPIdentifier ba then Inr True
          else
            (case Compare (Source ca) (Source ba) of
               Inl e \<Rightarrow> Inl e
             | Inr s \<Rightarrow> if s = - 1 then Inr True else Inr False))))"

section \<open>Length\<close>

text \<open>
  All arithmetic is on \<open>uint16\<close>: sums wrap, and a conversion \<open>uint16(n)\<close> of an
  \<open>int\<close> keeps the low 16 bits (\<open>of_nat\<close>). The method \<open>WireLength\<close> of
  \<open>types.UnknownPathAttribute\<close> is not among the sources, and the spec gives no formula
  for it: it is the parameter \<open>WireLength\<close> of the model. The local \<open>clusterListLen\<close>
  is computed as the source computes it; the returned sum is the source's, term by term.
\<close>

definition Length :: "(UnknownPathAttribute \<Rightarrow> 16 word) \<Rightarrow> BGPPath \<Rightarrow> 16 word result" where
  "Length WireLength b =
     (case ASPath b of
        None \<Rightarrow> Inl NilPointerDereference
      | Some segments \<Rightarrow>
          let asPathLen =
                fold (\<lambda>segment l. (l + 1) + of_nat (4 * length (ASNs segment))) segments 3;
              communitiesLen =
                (case Communities b of
                   None \<Rightarrow> 0
                 | Some cs \<Rightarrow> if length cs \<noteq> 0 then 0 + (3 + of_nat (length cs * 4)) else 0);
              largeCommunitiesLen =
                (case LargeCommunities b of
                   None \<Rightarrow> 0
                 | Some ls \<Rightarrow> if length ls \<noteq> 0 then 0 + (3 + of_nat (length ls * 12)) else 0);
              clusterListLen =
                (case ClusterList b of
                   None \<Rightarrow> (0 :: 16 word)
                 | Some cl \<Rightarrow> if length cl \<noteq> 0 then 0 + (3 + of_nat (length cl * 4)) else 0);
              unknownAttributesLen =
                (case UnknownAttributes b of
                   None \<Rightarrow> 0
                 | Some us \<Rightarrow> fold (\<lambda>unknownAttr l. l + WireLength unknownAttr) us 0)
          in
            (case BGPPathA b of
               None \<Rightarrow> Inl NilPointerDereference
             | Some a \<Rightarrow>
                 let originatorID = (if OriginatorID a \<noteq> 0 then 4 else 0)
                 in Inr (communitiesLen + largeCommunitiesLen + 4 * 7 + 4 + originatorID
                         + asPathLen + unknownAttributesLen)))"

section \<open>Prepend\<close>

text \<open>
  The constant \<open>types.MaxASNsSegment\<close> is not among the sources and the spec gives no
  value for it: it is the parameter \<open>MaxASNsSegment\<close> of the model. \<open>Prepend\<close> updates
  the path in place; the model returns the updated path. The count \<open>times\<close> of the source
  is \<open>times'\<close> here.
\<close>

definition insertNewASSequence :: "BGPPath \<Rightarrow> BGPPath result" where
  "insertNewASSequence b =
     (case ASPath b of
        None \<Rightarrow> Inl NilPointerDereference
      | Some pa \<Rightarrow> Inr (b\<lparr>ASPath := Some (\<lparr>Type = ASSequence, ASNs = []\<rparr> # pa)\<rparr>))"

text \<open>The body of the \<open>for\<close> loop, run \<open>n\<close> more times.\<close>

fun Prepend_loop :: "nat \<Rightarrow> 32 word \<Rightarrow> nat \<Rightarrow> BGPPath \<Rightarrow> BGPPath result" where
  "Prepend_loop MaxASNsSegment asn 0 b = Inr b"
| "Prepend_loop MaxASNsSegment asn (Suc n) b =
     (case ASPath b of
        None \<Rightarrow> Inl NilPointerDereference
      | Some pa \<Rightarrow>
     (case (if length pa = MaxASNsSegment then insertNewASSequence b else Inr b) of
        Inl e \<Rightarrow> Inl e
      | Inr b1 \<Rightarrow>
     (case ASPath b1 of
        None \<Rightarrow> Inl NilPointerDereference
      | Some [] \<Rightarrow> Inl IndexOutOfRange
      | Some (first # rest) \<Rightarrow>
          Prepend_loop MaxASNsSegment asn n
            (b1\<lparr>ASPath := Some (first\<lparr>ASNs := asn # ASNs first\<rparr> # rest)\<rparr>))))"

definition Prepend :: "nat \<Rightarrow> 32 word \<Rightarrow> 16 word \<Rightarrow> BGPPath \<Rightarrow> BGPPath result" where
  "Prepend MaxASNsSegment asn times' b =
     (if times' = 0 then Inr b
      else
     (case ASPath b of
        None \<Rightarrow> Inl NilPointerDereference
      | Some pa \<Rightarrow>
     (case (if length pa = 0 then insertNewASSequence b else Inr b) of
        Inl e \<Rightarrow> Inl e
      | Inr b1 \<Rightarrow>
     (case ASPath b1 of
        None \<Rightarrow> Inl NilPointerDereference
      | Some [] \<Rightarrow> Inl IndexOutOfRange
      | Some (first # rest) \<Rightarrow>
     (case (if Type first = ASSet then insertNewASSequence b1 else Inr b1) of
        Inl e \<Rightarrow> Inl e
      | Inr b2 \<Rightarrow>
     (case Prepend_loop MaxASNsSegment asn (unat times') b2 of
        Inl e \<Rightarrow> Inl e
      | Inr b3 \<Rightarrow>
     (case ASPath b3 of
        None \<Rightarrow> Inl NilPointerDereference
      | Some pa3 \<Rightarrow> Inr (b3\<lparr>ASPathLen := ASPath_Length pa3\<rparr>))))))))"

section \<open>The external form: ToProto and BGPPathFromProtoBGPPath\<close>

text \<open>
  Modelled from the spec: the message \<open>api.BGPPath\<close> and the conversions of the packages
  \<open>net\<close> and \<open>types\<close> are not among the sources. The fields of the message are those
  \<open>ToProto\<close> sets, written \<open>pb_\<close> and the Go field name. The spec gives the external
  form as: an address with its version tag and its 128-bit value split into two 64-bit
  halves; an AS path as an ordered list of segments, each a type and a list of AS numbers;
  a large community as its triplet; an unknown attribute with its raw type, flags and
  payload preserved. The external forms of large communities and unknown attributes are
  therefore the records above, and their conversions keep every field.
\<close>

record api_ASPathSegment =
  pb_SegmentType :: ASPathSegmentType
  pb_Asns :: "32 word list"

record api_BGPPath =
  pb_PathIdentifier :: "32 word"
  pb_NextHop :: "api_IP option"
  pb_LocalPref :: "32 word"
  pb_AsPath :: "api_ASPathSegment list"
  pb_Origin :: "32 word"
  pb_Med :: "32 word"
  pb_Ebgp :: bool
  pb_BgpIdentifier :: "32 word"
  pb_Source :: "api_IP option"
  pb_Communities :: "32 word list"
  pb_LargeCommunities :: "LargeCommunity list"
  pb_UnknownAttributes :: "UnknownPathAttribute list"
  pb_OriginatorId :: "32 word"
  pb_ClusterList :: "32 word list"

definition IP_ToProto :: "IP \<Rightarrow> api_IP" where
  "IP_ToProto ip = \<lparr>Higher = higher ip, Lower = lower ip, Version = version ip\<rparr>"

definition IPFromProtoIP :: "api_IP \<Rightarrow> IP" where
  "IPFromProtoIP addr = \<lparr>higher = Higher addr, lower = Lower addr, version = Version addr\<rparr>"

definition ASPath_ToProto :: "ASPath \<Rightarrow> api_ASPathSegment list" where
  "ASPath_ToProto pa = map (\<lambda>seg. \<lparr>pb_SegmentType = Type seg, pb_Asns = ASNs seg\<rparr>) pa"

definition ASPathFromProtoASPath :: "api_ASPathSegment list \<Rightarrow> ASPath" where
  "ASPathFromProtoASPath segments =
     map (\<lambda>seg. \<lparr>Type = pb_SegmentType seg, ASNs = pb_Asns seg\<rparr>) segments"

definition LargeCommunity_ToProto :: "LargeCommunity \<Rightarrow> LargeCommunity" where
  "LargeCommunity_ToProto lc = lc"

definition LargeCommunityFromProtoCommunity :: "LargeCommunity \<Rightarrow> LargeCommunity" where
  "LargeCommunityFromProtoCommunity lc = lc"

definition UnknownPathAttribute_ToProto :: "UnknownPathAttribute \<Rightarrow> UnknownPathAttribute" where
  "UnknownPathAttribute_ToProto u = u"

definition UnknownPathAttributeFromProtoUnknownPathAttribute ::
    "UnknownPathAttribute \<Rightarrow> UnknownPathAttribute" where
  "UnknownPathAttributeFromProtoUnknownPathAttribute u = u"

text \<open>
  Modelled from the spec: the cache \<open>bgpC\<close> behind \<open>Dedup\<close> is not among the sources.
  \<open>get\<close> returns the existing instance with equal fields, or registers the candidate and
  returns it: either way an attribute set with the candidate's fields.
\<close>

definition Dedup :: "BGPPathA \<Rightarrow> BGPPathA" where
  "Dedup a = a"

text \<open>
  \<open>ToProto\<close> answers nil to a nil receiver. It dereferences the attribute set, both
  addresses, the AS path and the four sequences without a check. The origin is widened to
  32 bits.
\<close>

definition ToProto :: "BGPPath option \<Rightarrow> api_BGPPath option result" where
  "ToProto bp =
     (case bp of
        None \<Rightarrow> Inr None
      | Some b \<Rightarrow>
     (case BGPPathA b of
        None \<Rightarrow> Inl NilPointerDereference
      | Some a \<Rightarrow>
     (case NextHop a of
        None \<Rightarrow> Inl NilPointerDereference
      | Some nh \<Rightarrow>
     (case ASPath b of
        None \<Rightarrow> Inl NilPointerDereference
      | Some pa \<Rightarrow>
     (case Source a of
        None \<Rightarrow> Inl NilPointerDereference
      | Some src \<Rightarrow>
     (case Communities b of
        None \<Rightarrow> Inl NilPointerDereference
      | Some cs \<Rightarrow>
     (case LargeCommunities b of
        None \<Rightarrow> Inl NilPointerDereference
      | Some ls \<Rightarrow>
     (case UnknownAttributes b of
        None \<Rightarrow> Inl NilPointerDereference
      | Some us \<Rightarrow>
     (case ClusterList b of
        None \<Rightarrow> Inl NilPointerDereference
      | Some cl \<Rightarrow>
          Inr (Some
            \<lparr>pb_PathIdentifier = PathIdentifier b,
             pb_NextHop = Some (IP_ToProto nh),
             pb_LocalPref = LocalPref a,
             pb_AsPath = ASPath_ToProto pa,
             pb_Origin = ucast (Origin a),
             pb_Med = MED a,
             pb_Ebgp = EBGP a,
             pb_BgpIdentifier = BGPIdentifier a,
             pb_Source = Some (IP_ToProto src),
             pb_Communities = cs,
             pb_LargeCommunities = map LargeCommunity_ToProto ls,
             pb_UnknownAttributes = map UnknownPathAttribute_ToProto us,
             pb_OriginatorId = OriginatorID a,
             pb_ClusterList = cl\<rparr>))))))))))"

text \<open>
  \<open>BGPPathFromProtoBGPPath\<close> sets the fields named in its struct literals; the fields it
  does not name (\<open>Aggregator\<close>, \<open>AtomicAggregate\<close>, \<open>ASPathLen\<close>) keep Go's zero
  value. The origin is narrowed to 8 bits.
\<close>

definition BGPPathFromProtoBGPPath :: "api_BGPPath option \<Rightarrow> BGPPath result" where
  "BGPPathFromProtoBGPPath pbp =
     (case pbp of
        None \<Rightarrow> Inl NilPointerDereference
      | Some pb \<Rightarrow>
     (case pb_NextHop pb of
        None \<Rightarrow> Inl NilPointerDereference
      | Some nh \<Rightarrow>
     (case pb_Source pb of
        None \<Rightarrow> Inl NilPointerDereference
      | Some src \<Rightarrow>
          Inr
            \<lparr>BGPPathA = Some (Dedup
               \<lparr>NextHop = Some (IPFromProtoIP nh),
                Source = Some (IPFromProtoIP src),
                LocalPref = pb_LocalPref pb,
                MED = pb_Med pb,
                BGPIdentifier = pb_BgpIdentifier pb,
                OriginatorID = pb_OriginatorId pb,
                Aggregator = None,
                EBGP = pb_Ebgp pb,
                AtomicAggregate = False,
                Origin = ucast (pb_Origin pb)\<rparr>),
             ASPath = Some (ASPathFromProtoASPath (pb_AsPath pb)),
             ClusterList = Some (pb_ClusterList pb),
             Communities = Some (pb_Communities pb),
             LargeCommunities =
               Some (map LargeCommunityFromProtoCommunity (pb_LargeCommunities pb)),
             UnknownAttributes =
               Some (map UnknownPathAttributeFromProtoUnknownPathAttribute
                        (pb_UnknownAttributes pb)),
             PathIdentifier = pb_PathIdentifier pb,
             ASPathLen = 0\<rparr>)))"

text \<open>The round trip: a path to its external form and back.\<close>

definition round_trip :: "BGPPath \<Rightarrow> BGPPath result" where
  "round_trip p =
     (case ToProto (Some p) of
        Inl e \<Rightarrow> Inl e
      | Inr pb \<Rightarrow> BGPPathFromProtoBGPPath pb)"

section \<open>Copy\<close>

text \<open>
  \<open>Copy\<close> is about which objects two paths share, so it is modelled on a store: a path
  struct holds addresses, and the store maps an address to the object it holds. A slice is
  the address of its backing array, and covers the whole array; a nil pointer and a nil
  slice are \<open>None\<close>. \<open>next_addr\<close> is the next address \<open>make\<close> and \<open>&\<close> hand out.
\<close>

type_synonym addr = nat

record ASPathSegment_obj =
  seg_Type :: ASPathSegmentType
  seg_ASNs :: "addr option"

record BGPPath_obj =
  ptr_BGPPathA :: "addr option"
  ptr_ASPath :: "addr option"
  ptr_ClusterList :: "addr option"
  ptr_Communities :: "addr option"
  ptr_LargeCommunities :: "addr option"
  ptr_UnknownAttributes :: "addr option"
  obj_PathIdentifier :: "32 word"
  obj_ASPathLen :: "16 word"

record store =
  path_at :: "addr \<rightharpoonup> BGPPath_obj"
  attrs_at :: "addr \<rightharpoonup> BGPPathA"
  aspath_at :: "addr \<rightharpoonup> ASPathSegment_obj list"
  uint32s_at :: "addr \<rightharpoonup> 32 word list"
  large_at :: "addr \<rightharpoonup> LargeCommunity list"
  unknown_at :: "addr \<rightharpoonup> UnknownPathAttribute list"
  next_addr :: addr

definition new_aspath :: "ASPathSegment_obj list \<Rightarrow> store \<Rightarrow> addr \<times> store" where
  "new_aspath segs h =
     (next_addr h,
      h\<lparr>aspath_at := (aspath_at h)(next_addr h \<mapsto> segs), next_addr := Suc (next_addr h)\<rparr>)"

definition new_uint32s :: "32 word list \<Rightarrow> store \<Rightarrow> addr \<times> store" where
  "new_uint32s xs h =
     (next_addr h,
      h\<lparr>uint32s_at := (uint32s_at h)(next_addr h \<mapsto> xs), next_addr := Suc (next_addr h)\<rparr>)"

definition new_large :: "LargeCommunity list \<Rightarrow> store \<Rightarrow> addr \<times> store" where
  "new_large ls h =
     (next_addr h,
      h\<lparr>large_at := (large_at h)(next_addr h \<mapsto> ls), next_addr := Suc (next_addr h)\<rparr>)"

definition new_path :: "BGPPath_obj \<Rightarrow> store \<Rightarrow> addr \<times> store" where
  "new_path b h =
     (next_addr h,
      h\<lparr>path_at := (path_at h)(next_addr h \<mapsto> b), next_addr := Suc (next_addr h)\<rparr>)"

text \<open>
  The blocks \<open>if cp.X != nil { x := make(..., len(*cp.X)); cp.X = &x; copy(*cp.X, *b.X) }\<close>:
  a nil pointer stays nil, any other is replaced by the address of a new slice with the
  same elements.
\<close>

definition copy_uint32s :: "addr option \<Rightarrow> store \<Rightarrow> (addr option \<times> store) result" where
  "copy_uint32s p h =
     (case p of
        None \<Rightarrow> Inr (None, h)
      | Some a \<Rightarrow>
          (case uint32s_at h a of
             None \<Rightarrow> Inl InvalidAddress
           | Some xs \<Rightarrow> let (a', h') = new_uint32s xs h in Inr (Some a', h')))"

definition copy_large :: "addr option \<Rightarrow> store \<Rightarrow> (addr option \<times> store) result" where
  "copy_large p h =
     (case p of
        None \<Rightarrow> Inr (None, h)
      | Some a \<Rightarrow>
          (case large_at h a of
             None \<Rightarrow> Inl InvalidAddress
           | Some ls \<Rightarrow> let (a', h') = new_large ls h in Inr (Some a', h')))"

text \<open>
  \<open>cp := *b\<close> copies the struct, and with it all six addresses. The AS path is always
  replaced by a new slice holding the same segment structs (\<open>copy\<close> copies each segment:
  its type and the slice header of its \<open>ASNs\<close>); \<open>Communities\<close>,
  \<open>LargeCommunities\<close> and \<open>ClusterList\<close> are replaced where they are not nil. No
  statement assigns \<open>cp.BGPPathA\<close> or \<open>cp.UnknownAttributes\<close>. \<open>&cp\<close> is a new path
  struct.
\<close>

definition Copy :: "addr option \<Rightarrow> store \<Rightarrow> (addr option \<times> store) result" where
  "Copy bp h =
     (case bp of
        None \<Rightarrow> Inr (None, h)
      | Some baddr \<Rightarrow>
     (case path_at h baddr of
        None \<Rightarrow> Inl InvalidAddress
      | Some b \<Rightarrow>
     (case ptr_ASPath b of
        None \<Rightarrow> Inl NilPointerDereference
      | Some ap \<Rightarrow>
     (case aspath_at h ap of
        None \<Rightarrow> Inl InvalidAddress
      | Some segs \<Rightarrow>
          let (asPath, h1) = new_aspath segs h;
              cp1 = b\<lparr>ptr_ASPath := Some asPath\<rparr>
          in
     (case copy_uint32s (ptr_Communities cp1) h1 of
        Inl e \<Rightarrow> Inl e
      | Inr (communities, h2) \<Rightarrow>
          let cp2 = cp1\<lparr>ptr_Communities := communities\<rparr> in
     (case copy_large (ptr_LargeCommunities cp2) h2 of
        Inl e \<Rightarrow> Inl e
      | Inr (largeCommunities, h3) \<Rightarrow>
          let cp3 = cp2\<lparr>ptr_LargeCommunities := largeCommunities\<rparr> in
     (case copy_uint32s (ptr_ClusterList b) h3 of
        Inl e \<Rightarrow> Inl e
      | Inr (clusterList, h4) \<Rightarrow>
          let cp4 = cp3\<lparr>ptr_ClusterList := clusterList\<rparr>;
              (cpaddr, h5) = new_path cp4 h4
          in Inr (Some cpaddr, h5))))))))"

text \<open>
  What a path is worth in a store: the value of section \<open>BGPPathA and BGPPath\<close> that its
  addresses lead to. \<open>None\<close> is an address that holds no object.
\<close>

definition load_ptr :: "(addr \<rightharpoonup> 'a) \<Rightarrow> addr option \<Rightarrow> 'a option option" where
  "load_ptr m p = (case p of None \<Rightarrow> Some None | Some a \<Rightarrow> map_option Some (m a))"

definition load_segment :: "store \<Rightarrow> ASPathSegment_obj \<Rightarrow> ASPathSegment option" where
  "load_segment h s =
     (case seg_ASNs s of
        None \<Rightarrow> Some \<lparr>Type = seg_Type s, ASNs = []\<rparr>
      | Some a \<Rightarrow> map_option (\<lambda>xs. \<lparr>Type = seg_Type s, ASNs = xs\<rparr>) (uint32s_at h a))"

definition load_aspath :: "store \<Rightarrow> addr option \<Rightarrow> ASPath option option" where
  "load_aspath h p =
     (case p of
        None \<Rightarrow> Some None
      | Some a \<Rightarrow>
          (case aspath_at h a of
             None \<Rightarrow> None
           | Some segs \<Rightarrow> map_option Some (those (map (load_segment h) segs))))"

definition load_path :: "store \<Rightarrow> addr \<Rightarrow> BGPPath option" where
  "load_path h a =
     (case path_at h a of
        None \<Rightarrow> None
      | Some b \<Rightarrow>
     (case load_ptr (attrs_at h) (ptr_BGPPathA b) of
        None \<Rightarrow> None
      | Some pathA \<Rightarrow>
     (case load_aspath h (ptr_ASPath b) of
        None \<Rightarrow> None
      | Some asPath \<Rightarrow>
     (case load_ptr (uint32s_at h) (ptr_ClusterList b) of
        None \<Rightarrow> None
      | Some clusterList \<Rightarrow>
     (case load_ptr (uint32s_at h) (ptr_Communities b) of
        None \<Rightarrow> None
      | Some communities \<Rightarrow>
     (case load_ptr (large_at h) (ptr_LargeCommunities b) of
        None \<Rightarrow> None
      | Some largeCommunities \<Rightarrow>
     (case load_ptr (unknown_at h) (ptr_UnknownAttributes b) of
        None \<Rightarrow> None
      | Some unknownAttributes \<Rightarrow>
          Some
            \<lparr>BGPPathA = pathA,
             ASPath = asPath,
             ClusterList = clusterList,
             Communities = communities,
             LargeCommunities = largeCommunities,
             UnknownAttributes = unknownAttributes,
             PathIdentifier = obj_PathIdentifier b,
             ASPathLen = obj_ASPathLen b\<rparr>)))))))"

text \<open>
  Assignments through a path, as a caller of \<open>Copy\<close> writes them:
  \<open>(*p.UnknownAttributes)[i] = v\<close>, \<open>(*p.ASPath)[i].ASNs[j] = v\<close> and
  \<open>(*p.Communities)[i] = v\<close>.
\<close>

definition assign_UnknownAttribute ::
    "addr \<Rightarrow> nat \<Rightarrow> UnknownPathAttribute \<Rightarrow> store \<Rightarrow> store result" where
  "assign_UnknownAttribute p i v h =
     (case path_at h p of
        None \<Rightarrow> Inl InvalidAddress
      | Some b \<Rightarrow>
     (case ptr_UnknownAttributes b of
        None \<Rightarrow> Inl NilPointerDereference
      | Some ua \<Rightarrow>
     (case unknown_at h ua of
        None \<Rightarrow> Inl InvalidAddress
      | Some us \<Rightarrow>
          if i < length us then Inr (h\<lparr>unknown_at := (unknown_at h)(ua \<mapsto> us[i := v])\<rparr>)
          else Inl IndexOutOfRange)))"

definition assign_ASN :: "addr \<Rightarrow> nat \<Rightarrow> nat \<Rightarrow> 32 word \<Rightarrow> store \<Rightarrow> store result" where
  "assign_ASN p i j v h =
     (case path_at h p of
        None \<Rightarrow> Inl InvalidAddress
      | Some b \<Rightarrow>
     (case ptr_ASPath b of
        None \<Rightarrow> Inl NilPointerDereference
      | Some ap \<Rightarrow>
     (case aspath_at h ap of
        None \<Rightarrow> Inl InvalidAddress
      | Some segs \<Rightarrow>
          if i < length segs then
            (case seg_ASNs (segs ! i) of
               None \<Rightarrow> Inl IndexOutOfRange
             | Some na \<Rightarrow>
                 (case uint32s_at h na of
                    None \<Rightarrow> Inl InvalidAddress
                  | Some asns \<Rightarrow>
                      if j < length asns
                      then Inr (h\<lparr>uint32s_at := (uint32s_at h)(na \<mapsto> asns[j := v])\<rparr>)
                      else Inl IndexOutOfRange))
          else Inl IndexOutOfRange)))"

definition assign_Community :: "addr \<Rightarrow> nat \<Rightarrow> 32 word \<Rightarrow> store \<Rightarrow> store result" where
  "assign_Community p i v h =
     (case path_at h p of
        None \<Rightarrow> Inl InvalidAddress
      | Some b \<Rightarrow>
     (case ptr_Communities b of
        None \<Rightarrow> Inl NilPointerDereference
      | Some ca \<Rightarrow>
     (case uint32s_at h ca of
        None \<Rightarrow> Inl InvalidAddress
      | Some cs \<Rightarrow>
          if i < length cs then Inr (h\<lparr>uint32s_at := (uint32s_at h)(ca \<mapsto> cs[i := v])\<rparr>)
          else Inl IndexOutOfRange)))"

text \<open>
  Three more assignments through a path: \<open>(*p.ClusterList)[i] = v\<close>,
  \<open>(*p.LargeCommunities)[i] = v\<close> and \<open>(*p.ASPath)[i] = v\<close> (a whole segment).
\<close>

definition assign_ClusterID :: "addr \<Rightarrow> nat \<Rightarrow> 32 word \<Rightarrow> store \<Rightarrow> store result" where
  "assign_ClusterID p i v h =
     (case path_at h p of
        None \<Rightarrow> Inl InvalidAddress
      | Some b \<Rightarrow>
     (case ptr_ClusterList b of
        None \<Rightarrow> Inl NilPointerDereference
      | Some ca \<Rightarrow>
     (case uint32s_at h ca of
        None \<Rightarrow> Inl InvalidAddress
      | Some cs \<Rightarrow>
          if i < length cs then Inr (h\<lparr>uint32s_at := (uint32s_at h)(ca \<mapsto> cs[i := v])\<rparr>)
          else Inl IndexOutOfRange)))"

definition assign_LargeCommunity ::
    "addr \<Rightarrow> nat \<Rightarrow> LargeCommunity \<Rightarrow> store \<Rightarrow> store result" where
  "assign_LargeCommunity p i v h =
     (case path_at h p of
        None \<Rightarrow> Inl InvalidAddress
      | Some b \<Rightarrow>
     (case ptr_LargeCommunities b of
        None \<Rightarrow> Inl NilPointerDereference
      | Some la \<Rightarrow>
     (case large_at h la of
        None \<Rightarrow> Inl InvalidAddress
      | Some ls \<Rightarrow>
          if i < length ls then Inr (h\<lparr>large_at := (large_at h)(la \<mapsto> ls[i := v])\<rparr>)
          else Inl IndexOutOfRange)))"

definition assign_Segment ::
    "addr \<Rightarrow> nat \<Rightarrow> ASPathSegment_obj \<Rightarrow> store \<Rightarrow> store result" where
  "assign_Segment p i v h =
     (case path_at h p of
        None \<Rightarrow> Inl InvalidAddress
      | Some b \<Rightarrow>
     (case ptr_ASPath b of
        None \<Rightarrow> Inl NilPointerDereference
      | Some ap \<Rightarrow>
     (case aspath_at h ap of
        None \<Rightarrow> Inl InvalidAddress
      | Some segs \<Rightarrow>
          if i < length segs then Inr (h\<lparr>aspath_at := (aspath_at h)(ap \<mapsto> segs[i := v])\<rparr>)
          else Inl IndexOutOfRange)))"

section \<open>Vocabulary of the statements\<close>

text \<open>
  What the claims speak of, as functions: the outcome of one criterion of \<open>Select\<close>
  (\<open>three_way x y\<close> is 1 where \<open>x < y\<close>, -1 where \<open>y < x\<close>, else 0), the eBGP
  criterion, the effective BGP identifier, and the first criterion that does not tie.
\<close>

definition three_way :: "'a::linorder \<Rightarrow> 'a \<Rightarrow> int" where
  "three_way x y = (if x < y then 1 else if y < x then - 1 else 0)"

definition ebgp_way :: "bool \<Rightarrow> bool \<Rightarrow> int" where
  "ebgp_way eb ec = (if ec \<and> \<not> eb then - 1 else if \<not> ec \<and> eb then 1 else 0)"

definition effective_identifier :: "BGPPathA \<Rightarrow> 32 word" where
  "effective_identifier a = (if OriginatorID a \<noteq> 0 then OriginatorID a else BGPIdentifier a)"

fun first_nonzero :: "int list \<Rightarrow> int" where
  "first_nonzero [] = 0"
| "first_nonzero (x # xs) = (if x = 0 then first_nonzero xs else x)"

definition then_by :: "int \<Rightarrow> int result \<Rightarrow> int result" where
  "then_by k R = (if k = 0 then R else Inr k)"

text \<open>
  The ECMP criteria between a path \<open>x\<close> with attribute set \<open>xa\<close> and a path \<open>y\<close>
  with attribute set \<open>ya\<close>: \<open>x\<close> is strictly preferred where it has the higher local
  preference, or with that tied the shorter cached AS-path length, or with that tied the
  lower origin, or with that tied the lower MED; the two are tied where all four are
  equal.
\<close>

definition ecmp_preferred :: "BGPPathA \<Rightarrow> BGPPath \<Rightarrow> BGPPathA \<Rightarrow> BGPPath \<Rightarrow> bool" where
  "ecmp_preferred xa x ya y =
     (LocalPref ya < LocalPref xa
      \<or> (LocalPref xa = LocalPref ya
         \<and> (ASPathLen x < ASPathLen y
            \<or> (ASPathLen x = ASPathLen y
               \<and> (Origin xa < Origin ya
                  \<or> (Origin xa = Origin ya \<and> MED xa < MED ya))))))"

definition ecmp_tied :: "BGPPathA \<Rightarrow> BGPPath \<Rightarrow> BGPPathA \<Rightarrow> BGPPath \<Rightarrow> bool" where
  "ecmp_tied xa x ya y =
     (LocalPref xa = LocalPref ya \<and> ASPathLen x = ASPathLen y
      \<and> Origin xa = Origin ya \<and> MED xa = MED ya)"

text \<open>
  The bytes of a sequence behind a pointer, on 16 bits: nothing where it is nil or empty,
  else a header of 3 and \<open>width\<close> for each entry.
\<close>

definition sequence_length :: "nat \<Rightarrow> 'a list option \<Rightarrow> 16 word" where
  "sequence_length width xs =
     (case xs of
        None \<Rightarrow> 0
      | Some l \<Rightarrow> if l = [] then 0 else 3 + of_nat (length l * width))"

text \<open>
  A path the external form can carry: every pointer \<open>ToProto\<close> dereferences is set.
\<close>

definition well_formed :: "BGPPath \<Rightarrow> bool" where
  "well_formed p =
     (case BGPPathA p of
        None \<Rightarrow> False
      | Some a \<Rightarrow>
          NextHop a \<noteq> None \<and> Source a \<noteq> None \<and> ASPath p \<noteq> None \<and> ClusterList p \<noteq> None
          \<and> Communities p \<noteq> None \<and> LargeCommunities p \<noteq> None \<and> UnknownAttributes p \<noteq> None)"



text \<open>
  A store is in order where every address from \<open>next_addr\<close> on is free, and a store
  \<open>h'\<close> keeps a store \<open>h\<close> where it holds every object of \<open>h\<close> at its address.
\<close>

definition store_ok :: "store \<Rightarrow> bool" where
  "store_ok h =
     (\<forall>a. next_addr h \<le> a \<longrightarrow>
        path_at h a = None \<and> attrs_at h a = None \<and> aspath_at h a = None
        \<and> uint32s_at h a = None \<and> large_at h a = None \<and> unknown_at h a = None)"

definition keeps :: "store \<Rightarrow> store \<Rightarrow> bool" where
  "keeps h h' =
     (next_addr h \<le> next_addr h'
      \<and> path_at h \<subseteq>\<^sub>m path_at h'
      \<and> attrs_at h \<subseteq>\<^sub>m attrs_at h'
      \<and> aspath_at h \<subseteq>\<^sub>m aspath_at h'
      \<and> uint32s_at h \<subseteq>\<^sub>m uint32s_at h'
      \<and> large_at h \<subseteq>\<^sub>m large_at h'
      \<and> unknown_at h \<subseteq>\<^sub>m unknown_at h')"

section \<open>Concrete paths\<close>

definition ip4 :: "64 word \<Rightarrow> IP" where
  "ip4 n = \<lparr>higher = 0, lower = n, version = IP_IPv4\<rparr>"

definition attrs0 :: BGPPathA where
  "attrs0 =
     \<lparr>NextHop = Some (ip4 1), Source = Some (ip4 2), LocalPref = 100, MED = 0,
      BGPIdentifier = 10, OriginatorID = 0, Aggregator = None, EBGP = False,
      AtomicAggregate = False, Origin = 0\<rparr>"

definition path0 :: BGPPath where
  "path0 =
     \<lparr>BGPPathA = Some attrs0, ASPath = Some [], ClusterList = Some [], Communities = Some [],
      LargeCommunities = Some [], UnknownAttributes = Some [], PathIdentifier = 0,
      ASPathLen = 0\<rparr>"

text \<open>\<open>path0\<close> with another attribute set.\<close>

definition with_attrs :: "BGPPathA \<Rightarrow> BGPPath" where
  "with_attrs a = path0\<lparr>BGPPathA := Some a\<rparr>"

text \<open>
  A path with the fields of \<open>path0\<close> that \<open>Select\<close> reads, and other values in every
  field it does not read.
\<close>

definition path_other :: BGPPath where
  "path_other =
     \<lparr>BGPPathA = Some (attrs0\<lparr>Aggregator := Some \<lparr>Address = 1, ASN = 65000\<rparr>,
                              AtomicAggregate := True\<rparr>),
      ASPath = Some [\<lparr>Type = ASSequence, ASNs = [65001, 65002]\<rparr>],
      ClusterList = Some [],
      Communities = Some [100],
      LargeCommunities = Some [\<lparr>GlobalAdministrator = 1, DataPart1 = 2, DataPart2 = 3\<rparr>],
      UnknownAttributes = Some [\<lparr>Optional = True, Transitive = True, Partial = False,
                                 TypeCode = 200, Value = [1, 2]\<rparr>],
      PathIdentifier = 9,
      ASPathLen = 0\<rparr>"

text \<open>A path whose AS path is one SEQUENCE segment of two AS numbers.\<close>

definition path_seq2 :: BGPPath where
  "path_seq2 = path0\<lparr>ASPath := Some [\<lparr>Type = ASSequence, ASNs = [65001, 65002]\<rparr>],
                      ASPathLen := 2\<rparr>"

text \<open>
  A path whose only segment holds 255 AS numbers, the most the one-octet count of a
  segment on the wire can hold.
\<close>

definition path_full :: BGPPath where
  "path_full = path0\<lparr>ASPath := Some [\<lparr>Type = ASSequence, ASNs = replicate 255 64512\<rparr>],
                      ASPathLen := 255\<rparr>"

text \<open>A path whose AS path is one SEQUENCE segment of one AS number.\<close>

definition path_seq1 :: BGPPath where
  "path_seq1 = path0\<lparr>ASPath := Some [\<lparr>Type = ASSequence, ASNs = [65001]\<rparr>], ASPathLen := 1\<rparr>"

section \<open>A concrete store\<close>

definition ua0 :: UnknownPathAttribute where
  "ua0 = \<lparr>Optional = True, Transitive = True, Partial = False, TypeCode = 200, Value = [1, 2]\<rparr>"

definition ua1 :: UnknownPathAttribute where
  "ua1 = \<lparr>Optional = True, Transitive = False, Partial = False, TypeCode = 201, Value = [9]\<rparr>"

definition lc0 :: LargeCommunity where
  "lc0 = \<lparr>GlobalAdministrator = 1, DataPart1 = 2, DataPart2 = 3\<rparr>"

definition obj0 :: BGPPath_obj where
  "obj0 =
     \<lparr>ptr_BGPPathA = Some 1, ptr_ASPath = Some 2, ptr_ClusterList = Some 4,
      ptr_Communities = Some 5, ptr_LargeCommunities = Some 6, ptr_UnknownAttributes = Some 7,
      obj_PathIdentifier = 0, obj_ASPathLen = 1\<rparr>"

text \<open>
  A store with one path at address 0: its attribute set at 1, its AS path at 2 with the AS
  numbers of its segment at 3, its cluster list at 4, its communities at 5, its large
  communities at 6 and its unknown attributes at 7.
\<close>

definition store0 :: store where
  "store0 =
     \<lparr>path_at = [0 \<mapsto> obj0],
      attrs_at = [1 \<mapsto> attrs0],
      aspath_at = [2 \<mapsto> [\<lparr>seg_Type = ASSequence, seg_ASNs = Some 3\<rparr>]],
      uint32s_at = [3 \<mapsto> [65001], 4 \<mapsto> [7], 5 \<mapsto> [100]],
      large_at = [6 \<mapsto> [lc0]],
      unknown_at = [7 \<mapsto> [ua0]],
      next_addr = 8\<rparr>"

text \<open>
  The store after \<open>Copy\<close>: the new AS path at 8, communities at 9, large communities at
  10, cluster list at 11 and the new path struct at 12.
\<close>

definition store1 :: store where
  "store1 =
     \<lparr>path_at = [0 \<mapsto> obj0,
                 12 \<mapsto> obj0\<lparr>ptr_ASPath := Some 8, ptr_ClusterList := Some 11,
                              ptr_Communities := Some 9, ptr_LargeCommunities := Some 10\<rparr>],
      attrs_at = [1 \<mapsto> attrs0],
      aspath_at = [2 \<mapsto> [\<lparr>seg_Type = ASSequence, seg_ASNs = Some 3\<rparr>],
                   8 \<mapsto> [\<lparr>seg_Type = ASSequence, seg_ASNs = Some 3\<rparr>]],
      uint32s_at = [3 \<mapsto> [65001], 4 \<mapsto> [7], 5 \<mapsto> [100], 9 \<mapsto> [100], 11 \<mapsto> [7]],
      large_at = [6 \<mapsto> [lc0], 10 \<mapsto> [lc0]],
      unknown_at = [7 \<mapsto> [ua0]],
      next_addr = 13\<rparr>"

text \<open>The value of the path at address 0 of \<open>store0\<close>.\<close>

definition value0 :: BGPPath where
  "value0 =
     \<lparr>BGPPathA = Some attrs0,
      ASPath = Some [\<lparr>Type = ASSequence, ASNs = [65001]\<rparr>],
      ClusterList = Some [7],
      Communities = Some [100],
      LargeCommunities = Some [lc0],
      UnknownAttributes = Some [ua0],
      PathIdentifier = 0,
      ASPathLen = 1\<rparr>"

section \<open>Properties of Compare\<close>

lemma Compare_value_range:
  "Compare_value x y = 1 \<or> Compare_value x y = 0 \<or> Compare_value x y = - 1"
  by (simp add: Compare_value_def)

lemma Compare_value_swap: "Compare_value y x = - Compare_value x y"
proof -
  have v: "version x = version y \<or> (version x = IP_IPv4 \<and> version y = IP_IPv6)
      \<or> (version x = IP_IPv6 \<and> version y = IP_IPv4)"
    by (cases "version x"; cases "version y") simp_all
  show ?thesis
    using v by (auto simp: Compare_value_def not_less dest: order.strict_implies_not_eq)
qed

section \<open>Select as a chain of criteria\<close>

text \<open>
  Each pair of \<open>if\<close> statements of \<open>Select\<close> is one criterion: it returns where the
  two paths differ on it and goes on where they tie.
\<close>

lemma three_way_swap: "three_way y x = - three_way x y"
  by (auto simp: three_way_def)

lemma three_way_range: "three_way x y = 1 \<or> three_way x y = 0 \<or> three_way x y = - 1"
  by (simp add: three_way_def)

lemma ebgp_way_swap: "ebgp_way y x = - ebgp_way x y"
  by (auto simp: ebgp_way_def)

lemma ebgp_way_range: "ebgp_way x y = 1 \<or> ebgp_way x y = 0 \<or> ebgp_way x y = - 1"
  by (simp add: ebgp_way_def)

lemma first_nonzero_uminus: "first_nonzero (map uminus xs) = - first_nonzero xs"
  by (induction xs) simp_all

lemma first_nonzero_range:
  "list_all (\<lambda>x. x = 1 \<or> x = 0 \<or> x = - 1) xs \<Longrightarrow>
   first_nonzero xs = 1 \<or> first_nonzero xs = 0 \<or> first_nonzero xs = - 1"
  by (induction xs) auto

lemma first_nonzero_eq_0: "first_nonzero xs = 0 \<longleftrightarrow> list_all (\<lambda>x. x = 0) xs"
  by (induction xs) auto

lemma stage_less:
  "(if x < y then Inr 1 else if y < x then Inr (- 1) else R) = then_by (three_way x y) R"
  by (auto simp: then_by_def three_way_def)

lemma stage_ebgp:
  "(if ec \<and> \<not> eb then Inr (- 1) else if \<not> ec \<and> eb then Inr 1 else R)
     = then_by (ebgp_way eb ec) R"
  by (auto simp: then_by_def ebgp_way_def)

lemma stage_Compare:
  "(if Compare_value x y = - 1 then Inr 1 else if Compare_value x y = 1 then Inr (- 1) else R)
     = then_by (- Compare_value x y) R"
  using Compare_value_range [of x y] by (auto simp: then_by_def)

lemma Compare_value_neg_range:
  "Compare_value x y = - 1 \<or> Compare_value x y = 0 \<or> Compare_value x y = 1"
  using Compare_value_range [of x y] by auto

lemma then_by_first_nonzero: "then_by k (Inr (first_nonzero ks)) = Inr (first_nonzero (k # ks))"
  by (simp add: then_by_def)

lemma Select_staged:
  "Select b c =
     (case BGPPathA c of
        None \<Rightarrow> Inl NilPointerDereference
      | Some ca \<Rightarrow>
     (case BGPPathA b of
        None \<Rightarrow> Inl NilPointerDereference
      | Some ba \<Rightarrow>
          then_by (three_way (LocalPref ca) (LocalPref ba))
         (then_by (three_way (ASPathLen b) (ASPathLen c))
         (then_by (three_way (Origin ba) (Origin ca))
         (then_by (three_way (MED ba) (MED ca))
         (then_by (ebgp_way (EBGP ba) (EBGP ca))
         (then_by (three_way (effective_identifier ca) (effective_identifier ba))
            (case ClusterList c of
               None \<Rightarrow> Inl NilPointerDereference
             | Some clC \<Rightarrow>
            (case ClusterList b of
               None \<Rightarrow> Inl NilPointerDereference
             | Some clB \<Rightarrow>
                 then_by (three_way (length clC) (length clB))
                   (case Compare (Source ca) (Source ba) of
                      Inl e \<Rightarrow> Inl e
                    | Inr s \<Rightarrow>
                        if s = - 1 then Inr 1
                        else if s = 1 then Inr (- 1)
                        else
                          (case Compare (NextHop ca) (NextHop ba) of
                             Inl e \<Rightarrow> Inl e
                           | Inr n \<Rightarrow>
                               if n = - 1 then Inr 1
                               else if n = 1 then Inr (- 1)
                               else Inr 0)))))))))))"
  unfolding Select_def Let_def stage_less stage_ebgp effective_identifier_def [symmetric]
  by (rule refl)

lemma Select_keys:
  assumes b: "BGPPathA b = Some ba" "Source ba = Some sb" "NextHop ba = Some nb"
      "ClusterList b = Some clb"
    and c: "BGPPathA c = Some ca" "Source ca = Some sc" "NextHop ca = Some nc"
      "ClusterList c = Some clc"
  shows "Select b c = Inr (first_nonzero
     [three_way (LocalPref ca) (LocalPref ba),
      three_way (ASPathLen b) (ASPathLen c),
      three_way (Origin ba) (Origin ca),
      three_way (MED ba) (MED ca),
      ebgp_way (EBGP ba) (EBGP ca),
      three_way (effective_identifier ca) (effective_identifier ba),
      three_way (length clc) (length clb),
      - Compare_value sc sb,
      - Compare_value nc nb])"
proof -
  have tail: "(case Compare (Some sc) (Some sb) of
                      Inl e \<Rightarrow> Inl e
                    | Inr s \<Rightarrow>
                        if s = - 1 then Inr 1
                        else if s = 1 then Inr (- 1)
                        else
                          (case Compare (Some nc) (Some nb) of
                             Inl e \<Rightarrow> Inl e
                           | Inr n \<Rightarrow>
                               if n = - 1 then Inr 1
                               else if n = 1 then Inr (- 1)
                               else Inr 0))
     = Inr (first_nonzero [- Compare_value sc sb, - Compare_value nc nb])"
    unfolding Compare_def option.case sum.case stage_Compare
    by (simp add: then_by_def)
  show ?thesis
    unfolding Select_staged b c option.case tail then_by_first_nonzero
    by (rule refl)
qed

text \<open>
  With the containers present, \<open>Select b c\<close> is the outcome of the first criterion
  that does not tie, of nine taken in the order of the source: local preference (higher
  \<open>b\<close> gives 1), cached AS-path length (shorter \<open>b\<close> gives 1), origin (lower \<open>b\<close> gives
  1), MED (lower \<open>b\<close> gives 1), eBGP (\<open>b\<close> external and \<open>c\<close> internal gives 1),
  effective BGP identifier (lower \<open>c\<close> gives 1), length of the cluster list (shorter
  \<open>c\<close> gives 1), source address (lower \<open>c\<close> gives 1), next hop (lower \<open>c\<close> gives 1);
  it is 0 exactly where all nine tie.
\<close>

theorem Select_first_deciding_criterion:
  assumes "BGPPathA b = Some ba" and "Source ba = Some sb" and "NextHop ba = Some nb"
    and "ClusterList b = Some clb"
    and "BGPPathA c = Some ca" and "Source ca = Some sc" and "NextHop ca = Some nc"
    and "ClusterList c = Some clc"
  shows "Select b c = Inr (first_nonzero
     [three_way (LocalPref ca) (LocalPref ba),
      three_way (ASPathLen b) (ASPathLen c),
      three_way (Origin ba) (Origin ca),
      three_way (MED ba) (MED ca),
      ebgp_way (EBGP ba) (EBGP ca),
      three_way (effective_identifier ca) (effective_identifier ba),
      three_way (length clc) (length clb),
      - Compare_value sc sb,
      - Compare_value nc nb])"
  using assms by (rule Select_keys)

theorem Select_first_deciding_criterion_witness:
  "Select (with_attrs (attrs0\<lparr>LocalPref := 200, MED := 5\<rparr>)) (path0\<lparr>ASPathLen := 3\<rparr>)
     = Inr (first_nonzero [1, 1, 0, - 1, 0, 0, 0, 0, 0])
   \<and> Select (with_attrs (attrs0\<lparr>LocalPref := 200, MED := 5\<rparr>)) (path0\<lparr>ASPathLen := 3\<rparr>) = Inr 1"
  using Select_first_deciding_criterion [of "with_attrs (attrs0\<lparr>LocalPref := 200, MED := 5\<rparr>)"
      "attrs0\<lparr>LocalPref := 200, MED := 5\<rparr>" "ip4 2" "ip4 1" "[]"
      "path0\<lparr>ASPathLen := 3\<rparr>" attrs0 "ip4 2" "ip4 1" "[]"]
  by (simp add: with_attrs_def path0_def attrs0_def three_way_def ebgp_way_def
      effective_identifier_def Compare_value_def)

section \<open>Claims about Select\<close>

text \<open>
  C3. For paths whose containers are present (attribute set, source and next-hop address,
  cluster list), \<open>Select b c\<close> returns exactly one of 1 (b better), 0 (equal) and -1
  (c better), and \<open>Select c b\<close> returns the negated value.
\<close>

theorem Select_sign_antisymmetric:
  assumes "containers_present b" and "containers_present c"
  shows "\<exists>r. Select b c = Inr r \<and> (r = 1 \<or> r = 0 \<or> r = - 1) \<and> Select c b = Inr (- r)"
proof -
  from assms(1) obtain ba sb nb clb where b: "BGPPathA b = Some ba" "Source ba = Some sb"
      "NextHop ba = Some nb" "ClusterList b = Some clb"
    by (auto simp: containers_present_def split: option.splits)
  from assms(2) obtain ca sc nc clc where c: "BGPPathA c = Some ca" "Source ca = Some sc"
      "NextHop ca = Some nc" "ClusterList c = Some clc"
    by (auto simp: containers_present_def split: option.splits)
  let ?ks = "[three_way (LocalPref ca) (LocalPref ba),
      three_way (ASPathLen b) (ASPathLen c),
      three_way (Origin ba) (Origin ca),
      three_way (MED ba) (MED ca),
      ebgp_way (EBGP ba) (EBGP ca),
      three_way (effective_identifier ca) (effective_identifier ba),
      three_way (length clc) (length clb),
      - Compare_value sc sb,
      - Compare_value nc nb]"
  have bc: "Select b c = Inr (first_nonzero ?ks)"
    by (rule Select_keys [OF b c])
  have "Select c b = Inr (first_nonzero (map uminus ?ks))"
    unfolding Select_keys [OF c b] list.map
    by (simp only: three_way_swap [of "LocalPref ca"] three_way_swap [of "ASPathLen b"]
        three_way_swap [of "Origin ba"] three_way_swap [of "MED ba"]
        ebgp_way_swap [of "EBGP ba"] three_way_swap [of "effective_identifier ca"]
        three_way_swap [of "length clc"] Compare_value_swap [of sc] Compare_value_swap [of nc]
        minus_minus)
  then have cb: "Select c b = Inr (- first_nonzero ?ks)"
    by (simp only: first_nonzero_uminus)
  have "list_all (\<lambda>x. x = 1 \<or> x = 0 \<or> x = - 1) ?ks"
    by (simp add: three_way_range ebgp_way_range Compare_value_neg_range)
  then have "first_nonzero ?ks = 1 \<or> first_nonzero ?ks = 0 \<or> first_nonzero ?ks = - 1"
    by (rule first_nonzero_range)
  with bc cb show ?thesis by blast
qed


theorem Select_sign_antisymmetric_witness:
  "containers_present path0 \<and> containers_present (with_attrs (attrs0\<lparr>LocalPref := 200\<rparr>))
   \<and> Select path0 (with_attrs (attrs0\<lparr>LocalPref := 200\<rparr>)) = Inr (- 1)
   \<and> Select (with_attrs (attrs0\<lparr>LocalPref := 200\<rparr>)) path0 = Inr 1"
proof -
  have p: "containers_present path0"
    by (simp add: containers_present_def path0_def attrs0_def)
  have q: "containers_present (with_attrs (attrs0\<lparr>LocalPref := 200\<rparr>))"
    by (simp add: containers_present_def with_attrs_def path0_def attrs0_def)
  have s: "Select path0 (with_attrs (attrs0\<lparr>LocalPref := 200\<rparr>)) = Inr (- 1)"
    by (simp add: Select_def with_attrs_def path0_def attrs0_def)
  from Select_sign_antisymmetric [OF p q] s
  have "Select (with_attrs (attrs0\<lparr>LocalPref := 200\<rparr>)) path0 = Inr 1"
    by auto
  with p q s show ?thesis by simp
qed

text \<open>
  C1. \<open>Select\<close> applies its criteria in the claim's order, and the first five in the
  claim's direction. From the sixth on the direction is reversed: with all earlier criteria
  tied, \<open>Select b c\<close> is -1 (c selected) where \<open>b\<close> has the lower effective BGP
  identifier, the shorter cluster list, the lower source address or the lower next-hop
  address. The third line is the route-reflector example of the spec: X has BGP identifier
  10 and no originator ID, Y has BGP identifier 20 and originator ID 5; the spec selects Y,
  \<open>Select X Y\<close> is 1.
\<close>

theorem Select_identifier_cluster_address_direction:
  "Select path0 (with_attrs (attrs0\<lparr>BGPIdentifier := 20\<rparr>)) = Inr (- 1)
   \<and> Select (with_attrs (attrs0\<lparr>BGPIdentifier := 20\<rparr>)) path0 = Inr 1
   \<and> Select path0 (with_attrs (attrs0\<lparr>BGPIdentifier := 20, OriginatorID := 5\<rparr>)) = Inr 1
   \<and> Select path0 (path0\<lparr>ClusterList := Some [7]\<rparr>) = Inr (- 1)
   \<and> Select path0 (with_attrs (attrs0\<lparr>Source := Some (ip4 3)\<rparr>)) = Inr (- 1)
   \<and> Select path0 (with_attrs (attrs0\<lparr>NextHop := Some (ip4 2)\<rparr>)) = Inr (- 1)"
  by (simp add: Select_def with_attrs_def path0_def attrs0_def Compare_def Compare_value_def
      ip4_def)

text \<open>
  C2. With the first six criteria tied, \<open>Select\<close> dereferences both cluster lists
  without a nil check: a path without cluster list makes it panic, on either side. \<open>Length\<close>
  checks the pointer and counts the same path.
\<close>

theorem Select_nil_ClusterList_panics:
  "Select (path0\<lparr>ClusterList := None\<rparr>) path0 = Inl NilPointerDereference
   \<and> Select path0 (path0\<lparr>ClusterList := None\<rparr>) = Inl NilPointerDereference
   \<and> Select (path0\<lparr>ClusterList := None\<rparr>) (path0\<lparr>ClusterList := Some [7]\<rparr>)
       = Inl NilPointerDereference
   \<and> Length WireLength (path0\<lparr>ClusterList := None\<rparr>) = Inr 35"
  by (simp add: Select_def Length_def path0_def attrs0_def)






lemma Select_self:
  assumes "containers_present b"
  shows "Select b b = Inr 0"
proof -
  from assms obtain ba sb nb clb where b: "BGPPathA b = Some ba" "Source ba = Some sb"
      "NextHop ba = Some nb" "ClusterList b = Some clb"
    by (auto simp: containers_present_def split: option.splits)
  show ?thesis
    unfolding Select_keys [OF b b]
    by (simp add: three_way_def ebgp_way_def Compare_value_def)
qed





text \<open>
  \<open>Equal\<close> holds between a path and itself, where its containers are present.
\<close>

theorem Equal_reflexive:
  assumes "containers_present p"
  shows "Equal p p = Inr True"
  using assms by (simp add: Equal_def Select_self)

theorem Equal_reflexive_witness:
  "containers_present path_other \<and> Equal path_other path_other = Inr True"
proof -
  have p: "containers_present path_other"
    by (simp add: containers_present_def path_other_def attrs0_def)
  from Equal_reflexive [OF p] p show ?thesis by simp
qed

text \<open>
  The ECMP example of the spec: two paths that differ only in BGP identifier and
  source address are ECMP-eligible.
\<close>

theorem ECMP_ignores_identifier_and_source:
  "ECMP path0 (with_attrs (attrs0\<lparr>BGPIdentifier := 20, Source := Some (ip4 9)\<rparr>)) = Inr True"
  by (simp add: ECMP_def with_attrs_def path0_def attrs0_def)

text \<open>
  The tie-break example of the spec: X with local preference 100 and AS-path length 2
  against Y with local preference 100 and AS-path length 1, all else equal:
  \<open>Select X Y\<close> is -1, Y is selected.
\<close>

theorem Select_spec_tie_break_example:
  "Select (path0\<lparr>ASPathLen := 2\<rparr>) (path0\<lparr>ASPathLen := 1\<rparr>) = Inr (- 1)"
  by (simp add: Select_def path0_def attrs0_def)

section \<open>Claims about Length\<close>

text \<open>
  The path of the spec's wire-length example, of which C5 speaks: empty sequences, no
  originator ID, one SEQUENCE segment of two AS numbers. The AS path counts 3, then 1 for the segment, then 4
  for each AS number: \<open>Length\<close> returns 44, not 43.
\<close>

theorem Length_one_sequence_of_two_is_44:
  "Length (\<lambda>u. 0) path_seq2 = Inr 44 \<and> Length (\<lambda>u. 0) path_seq2 \<noteq> Inr 43"
  by (simp add: Length_def path_seq2_def path0_def attrs0_def)

text \<open>
  C5, as amended. For every path whose communities, large communities, cluster list and
  unknown attributes are empty or absent, whose originator ID is 0 and whose AS path is
  exactly one SEQUENCE segment of 2 AS numbers, \<open>Length\<close> returns
  \<open>4*7 + 4 + (3 + 1 + 4*2) = 44\<close>.
\<close>

theorem Length_one_segment_of_two_ASNs:
  assumes "BGPPathA b = Some a" and "OriginatorID a = 0"
    and "ASPath b = Some [seg]" and "Type seg = ASSequence" and "length (ASNs seg) = 2"
    and "Communities b = None \<or> Communities b = Some []"
    and "LargeCommunities b = None \<or> LargeCommunities b = Some []"
    and "ClusterList b = None \<or> ClusterList b = Some []"
    and "UnknownAttributes b = None \<or> UnknownAttributes b = Some []"
  shows "Length WireLength b = Inr 44"
  using assms by (auto simp: Length_def)

theorem Length_one_segment_of_two_ASNs_witness:
  "Length (\<lambda>u. 7) path_seq2 = Inr 44"
  using Length_one_segment_of_two_ASNs [of path_seq2 attrs0
      "\<lparr>Type = ASSequence, ASNs = [65001, 65002]\<rparr>" "\<lambda>u. 7"]
  by (simp add: path_seq2_def path0_def attrs0_def)

text \<open>
  C6. \<open>Length\<close> computes \<open>clusterListLen\<close> and leaves it out of the sum it returns: a
  cluster list of two entries adds nothing to the 35 bytes of \<open>path0\<close>, where two
  communities add \<open>3 + 4*2\<close>.
\<close>

theorem Length_leaves_ClusterList_out:
  "Length WireLength path0 = Inr 35
   \<and> Length WireLength (path0\<lparr>ClusterList := Some [1, 2]\<rparr>) = Inr 35
   \<and> Length WireLength (path0\<lparr>Communities := Some [1, 2]\<rparr>) = Inr 46"
  by (simp add: Length_def path0_def attrs0_def)

text \<open>
  For every path, \<open>Length\<close> is the same whatever the cluster list is.
\<close>

theorem Length_ignores_ClusterList:
  "Length WireLength (b\<lparr>ClusterList := cl\<rparr>) = Length WireLength b"
  by (cases "ASPath b"; cases "BGPPathA b") (simp_all add: Length_def Let_def)

lemma fold_plus_sum_list:
  fixes a :: "16 word"
  shows "fold (\<lambda>x l. l + f x) xs a = a + sum_list (map f xs)"
  by (induction xs arbitrary: a) (simp_all add: add.assoc)

text \<open>
  What \<open>Length\<close> does add, for every path with an attribute set and an AS path: the
  communities and the large communities where they are not empty, the fixed 32 bytes, the
  originator ID where it is not 0, the AS path (3, and \<open>1 + 4 * n\<close> for a segment of
  \<open>n\<close> AS numbers), and the wire lengths of the unknown attributes; all on 16 bits.
\<close>

theorem Length_sum:
  assumes "BGPPathA b = Some a" and "ASPath b = Some segments"
  shows "Length WireLength b =
     Inr (sequence_length 4 (Communities b) + sequence_length 12 (LargeCommunities b)
          + 4 * 7 + 4 + (if OriginatorID a \<noteq> 0 then 4 else 0)
          + (3 + sum_list (map (\<lambda>segment. 1 + of_nat (4 * length (ASNs segment))) segments))
          + (case UnknownAttributes b of
               None \<Rightarrow> 0
             | Some us \<Rightarrow> sum_list (map WireLength us)))"
proof -
  have f: "fold (\<lambda>segment l. (l + 1) + of_nat (4 * length (ASNs segment))) segments (3 :: 16 word)
      = 3 + sum_list (map (\<lambda>segment. 1 + of_nat (4 * length (ASNs segment))) segments)"
    using fold_plus_sum_list [of "\<lambda>segment. 1 + of_nat (4 * length (ASNs segment))" segments 3]
    by (simp add: add.assoc)
  have u: "\<And>us. fold (\<lambda>unknownAttr l. l + WireLength unknownAttr) us (0 :: 16 word)
      = sum_list (map WireLength us)"
    by (simp add: fold_plus_sum_list)
  show ?thesis
    unfolding Length_def assms option.case Let_def f u
    by (cases "Communities b"; cases "LargeCommunities b"; cases "UnknownAttributes b")
      (simp_all add: sequence_length_def)
qed

theorem Length_sum_witness:
  "Length (\<lambda>u. 3 + of_nat (length (Value u))) path_other = Inr (7 + 15 + 28 + 4 + 0 + 12 + 5)"
  using Length_sum [of path_other
      "attrs0\<lparr>Aggregator := Some \<lparr>Address = 1, ASN = 65000\<rparr>, AtomicAggregate := True\<rparr>"
      "[\<lparr>Type = ASSequence, ASNs = [65001, 65002]\<rparr>]" "\<lambda>u. 3 + of_nat (length (Value u))"]
  by (simp add: path_other_def attrs0_def sequence_length_def)

section \<open>Claims about better\<close>

lemma betterECMP_preferred:
  assumes "BGPPathA b = Some ba" and "BGPPathA c = Some ca"
  shows "betterECMP b c = Inr (ecmp_preferred ca c ba b)"
  using assms by (auto simp: betterECMP_def ecmp_preferred_def)

lemma ecmp_tied_not_preferred: "ecmp_tied xa x ya y \<Longrightarrow> \<not> ecmp_preferred xa x ya y"
  by (auto simp: ecmp_tied_def ecmp_preferred_def)

lemma better_eq:
  assumes "BGPPathA b = Some ba" and "BGPPathA c = Some ca"
    and "Source ba = Some sb" and "Source ca = Some sc"
  shows "better b c = Inr (ecmp_preferred ca c ba b \<or> BGPIdentifier ca < BGPIdentifier ba
                           \<or> Compare_value sc sb = - 1)"
  using assms
  by (cases "ecmp_preferred ca c ba b") (simp_all add: better_def betterECMP_preferred Compare_def)

text \<open>
  The claim C9 reads \<open>better b c\<close> as "\<open>b\<close> is better than \<open>c\<close>". Where \<open>b\<close> has the
  higher local preference and all else is equal, \<open>b\<close> is strictly preferred under the
  ECMP criteria, \<open>better b c\<close> is false, and \<open>better c b\<close> is true.
\<close>

theorem better_counterexample:
  "ecmp_preferred (attrs0\<lparr>LocalPref := 200\<rparr>) (with_attrs (attrs0\<lparr>LocalPref := 200\<rparr>))
      attrs0 path0
   \<and> better (with_attrs (attrs0\<lparr>LocalPref := 200\<rparr>)) path0 = Inr False
   \<and> better path0 (with_attrs (attrs0\<lparr>LocalPref := 200\<rparr>)) = Inr True"
  by (simp add: better_def betterECMP_def ecmp_preferred_def with_attrs_def path0_def
      attrs0_def Compare_def Compare_value_def ip4_def)

text \<open>
  C9, as amended. With the attribute sets and source addresses present, \<open>better b c\<close> is
  true where the argument \<open>c\<close> is strictly preferred over the receiver \<open>b\<close> under the
  ECMP criteria; where those four tie and \<open>c\<close> has the lower BGP identifier; and, where
  those tie and the identifiers are equal, exactly where \<open>c\<close> has the lower source
  address. It is false where the four criteria, the identifiers and the source addresses are
  all equal.
\<close>

theorem better_prefers_argument:
  assumes "BGPPathA b = Some ba" and "BGPPathA c = Some ca"
    and "Source ba = Some sb" and "Source ca = Some sc"
  shows "(ecmp_preferred ca c ba b \<longrightarrow> better b c = Inr True)
    \<and> (ecmp_tied ca c ba b \<and> BGPIdentifier ca < BGPIdentifier ba \<longrightarrow> better b c = Inr True)
    \<and> (ecmp_tied ca c ba b \<and> BGPIdentifier ca = BGPIdentifier ba \<longrightarrow>
          better b c = Inr (Compare_value sc sb = - 1))
    \<and> (ecmp_tied ca c ba b \<and> BGPIdentifier ca = BGPIdentifier ba \<and> sc = sb \<longrightarrow>
          better b c = Inr False)"
  using ecmp_tied_not_preferred [of ca c ba b]
  by (auto simp: better_eq [OF assms] Compare_value_def)

theorem better_prefers_argument_witness:
  "better path0 (with_attrs (attrs0\<lparr>LocalPref := 200\<rparr>)) = Inr True
   \<and> better (with_attrs (attrs0\<lparr>BGPIdentifier := 20\<rparr>)) path0 = Inr True
   \<and> better (with_attrs (attrs0\<lparr>Source := Some (ip4 3)\<rparr>)) path0 = Inr True
   \<and> better path0 path0 = Inr False"
proof -
  have 1: "better path0 (with_attrs (attrs0\<lparr>LocalPref := 200\<rparr>)) = Inr True"
    using better_prefers_argument [of path0 attrs0 "with_attrs (attrs0\<lparr>LocalPref := 200\<rparr>)"
        "attrs0\<lparr>LocalPref := 200\<rparr>" "ip4 2" "ip4 2"]
    by (simp add: ecmp_preferred_def ecmp_tied_def with_attrs_def path0_def attrs0_def)
  have 2: "better (with_attrs (attrs0\<lparr>BGPIdentifier := 20\<rparr>)) path0 = Inr True"
    using better_prefers_argument [of "with_attrs (attrs0\<lparr>BGPIdentifier := 20\<rparr>)"
        "attrs0\<lparr>BGPIdentifier := 20\<rparr>" path0 attrs0 "ip4 2" "ip4 2"]
    by (simp add: ecmp_preferred_def ecmp_tied_def with_attrs_def path0_def attrs0_def)
  have 3: "better (with_attrs (attrs0\<lparr>Source := Some (ip4 3)\<rparr>)) path0 = Inr True"
    using better_prefers_argument [of "with_attrs (attrs0\<lparr>Source := Some (ip4 3)\<rparr>)"
        "attrs0\<lparr>Source := Some (ip4 3)\<rparr>" path0 attrs0 "ip4 3" "ip4 2"]
    by (simp add: ecmp_preferred_def ecmp_tied_def with_attrs_def path0_def attrs0_def
        Compare_value_def ip4_def)
  have 4: "better path0 path0 = Inr False"
    using better_prefers_argument [of path0 attrs0 path0 attrs0 "ip4 2" "ip4 2"]
    by (simp add: ecmp_preferred_def ecmp_tied_def path0_def attrs0_def Compare_value_def)
  from 1 2 3 4 show ?thesis by simp
qed

text \<open>
  \<open>better\<close> does not tell "the receiver is strictly preferred" from "the four criteria
  tie": it goes on to the identifiers in both cases, so it can hold both ways.
\<close>

lemma better_both_ways:
  "better (with_attrs (attrs0\<lparr>LocalPref := 200, BGPIdentifier := 20\<rparr>)) path0 = Inr True
   \<and> better path0 (with_attrs (attrs0\<lparr>LocalPref := 200, BGPIdentifier := 20\<rparr>)) = Inr True"
  by (simp add: better_def betterECMP_def with_attrs_def path0_def attrs0_def Compare_def
      Compare_value_def ip4_def)

section \<open>Claims about Prepend\<close>

text \<open>
  C4. The loop of \<open>Prepend\<close> compares the number of segments of the path
  (\<open>len(*b.ASPath)\<close>) with \<open>MaxASNsSegment\<close>, not the number of AS numbers of the
  leading segment. With \<open>MaxASNsSegment = 255\<close>, a path whose only segment is full gets a
  256th AS number in that segment.
\<close>

theorem Prepend_exceeds_MaxASNsSegment:
  "map_option (map (\<lambda>seg. length (ASNs seg))) (ASPath path_full) = Some [255]
   \<and> Prepend 255 65001 1 path_full =
       Inr (path_full\<lparr>ASPath := Some [\<lparr>Type = ASSequence, ASNs = 65001 # replicate 255 64512\<rparr>],
                       ASPathLen := 256\<rparr>)
   \<and> length (65001 # replicate 255 (64512 :: 32 word)) = 256"
  by (simp add: Prepend_def path_full_def path0_def insertNewASSequence_def)

text \<open>The same for any maximum of at least 2.\<close>

lemma Prepend_overfull:
  assumes "2 \<le> M"
  shows "Prepend M asn 1 (path0\<lparr>ASPath := Some [\<lparr>Type = ASSequence, ASNs = replicate M x\<rparr>]\<rparr>) =
       Inr (path0\<lparr>ASPath := Some [\<lparr>Type = ASSequence, ASNs = asn # replicate M x\<rparr>],
                   ASPathLen := of_nat (Suc M)\<rparr>)"
  using assms by (simp add: Prepend_def path0_def insertNewASSequence_def)

text \<open>
  The prepend example of the spec: on an empty AS path, \<open>Prepend 65001 3\<close> gives one
  SEQUENCE segment \<open>[65001, 65001, 65001]\<close> and \<open>ASPathLen = 3\<close>.
\<close>

theorem Prepend_spec_example:
  "Prepend 255 65001 3 path0 =
     Inr (path0\<lparr>ASPath := Some [\<lparr>Type = ASSequence, ASNs = [65001, 65001, 65001]\<rparr>],
                 ASPathLen := 3\<rparr>)"
proof -
  have l3: "\<And>b. Prepend_loop 255 65001 3 b = Prepend_loop 255 65001 (Suc (Suc (Suc 0))) b"
    by (simp only: numeral_3_eq_3)
  show ?thesis
    by (simp add: Prepend_def l3 path0_def insertNewASSequence_def)
qed

lemma insertNewASSequence_Some:
  assumes "ASPath b = Some pa"
  shows "insertNewASSequence b = Inr (b\<lparr>ASPath := Some (\<lparr>Type = ASSequence, ASNs = []\<rparr> # pa)\<rparr>)"
  using assms by (simp add: insertNewASSequence_def)

lemma ASPath_update_same: "ASPath b = Some pa \<Longrightarrow> b\<lparr>ASPath := Some pa\<rparr> = b"
  by (cases b) simp

lemma Prepend_loop_result:
  assumes "ASPath b = Some pa" and "pa \<noteq> []"
  shows "\<exists>pa'. pa' \<noteq> [] \<and> Prepend_loop M asn n b = Inr (b\<lparr>ASPath := Some pa'\<rparr>)
            \<and> concat (map ASNs pa') = replicate n asn @ concat (map ASNs pa)"
  using assms
proof (induction n arbitrary: b pa)
  case 0
  then show ?case by (auto simp: ASPath_update_same)
next
  case (Suc n)
  obtain first rest where pa: "pa = first # rest"
    using Suc.prems(2) by (cases pa) auto
  show ?case
  proof (cases "length pa = M")
    case True
    let ?b1 = "b\<lparr>ASPath := Some (\<lparr>Type = ASSequence, ASNs = [asn]\<rparr> # pa)\<rparr>"
    have step: "Prepend_loop M asn (Suc n) b = Prepend_loop M asn n ?b1"
      using True Suc.prems(1) by (simp add: insertNewASSequence_def)
    from Suc.IH [of ?b1 "\<lparr>Type = ASSequence, ASNs = [asn]\<rparr> # pa"]
    obtain pa' where "pa' \<noteq> []" "Prepend_loop M asn n ?b1 = Inr (?b1\<lparr>ASPath := Some pa'\<rparr>)"
      "concat (map ASNs pa') = replicate n asn @ concat (map ASNs (\<lparr>Type = ASSequence, ASNs = [asn]\<rparr> # pa))"
      by auto
    then show ?thesis
      unfolding step by (auto simp: replicate_app_Cons_same)
  next
    case False
    let ?b1 = "b\<lparr>ASPath := Some (first\<lparr>ASNs := asn # ASNs first\<rparr> # rest)\<rparr>"
    have step: "Prepend_loop M asn (Suc n) b = Prepend_loop M asn n ?b1"
      using False Suc.prems(1) pa by simp
    from Suc.IH [of ?b1 "first\<lparr>ASNs := asn # ASNs first\<rparr> # rest"]
    obtain pa' where "pa' \<noteq> []" "Prepend_loop M asn n ?b1 = Inr (?b1\<lparr>ASPath := Some pa'\<rparr>)"
      "concat (map ASNs pa') = replicate n asn @ concat (map ASNs (first\<lparr>ASNs := asn # ASNs first\<rparr> # rest))"
      by auto
    then show ?thesis
      unfolding step by (auto simp: pa replicate_app_Cons_same)
  qed
qed

text \<open>
  What \<open>Prepend\<close> does keep, whatever \<open>MaxASNsSegment\<close> is: on a path with an AS path
  and a count that is not 0 it returns (no panic), it changes the AS path and the cached
  length only, the AS numbers of the new path read in order are \<open>times\<close> copies of
  \<open>asn\<close> followed by those of the old path, and the cached length is the effective length
  of the new AS path.
\<close>

theorem Prepend_prepends_and_recomputes:
  assumes "ASPath b = Some pa" and "times' \<noteq> 0"
  shows "\<exists>pa'. Prepend M asn times' b = Inr (b\<lparr>ASPath := Some pa', ASPathLen := ASPath_Length pa'\<rparr>)
            \<and> concat (map ASNs pa') = replicate (unat times') asn @ concat (map ASNs pa)"
proof -
  define pa2 where "pa2 =
     (if pa = [] then [\<lparr>Type = ASSequence, ASNs = []\<rparr>]
      else if Type (hd pa) = ASSet then \<lparr>Type = ASSequence, ASNs = []\<rparr> # pa
      else pa)"
  have ne: "pa2 \<noteq> []" and flat: "concat (map ASNs pa2) = concat (map ASNs pa)"
    by (auto simp: pa2_def)
  have pre: "Prepend M asn times' b =
     (case Prepend_loop M asn (unat times') (b\<lparr>ASPath := Some pa2\<rparr>) of
        Inl e \<Rightarrow> Inl e
      | Inr b3 \<Rightarrow>
          (case ASPath b3 of
             None \<Rightarrow> Inl NilPointerDereference
           | Some pa3 \<Rightarrow> Inr (b3\<lparr>ASPathLen := ASPath_Length pa3\<rparr>)))"
  proof (cases pa)
    case Nil
    then show ?thesis
      using assms by (simp add: Prepend_def insertNewASSequence_def pa2_def)
  next
    case (Cons first rest)
    then show ?thesis
      using assms
      by (cases "Type first")
        (simp_all add: Prepend_def insertNewASSequence_def pa2_def ASPath_update_same)
  qed
  from Prepend_loop_result [of "b\<lparr>ASPath := Some pa2\<rparr>" pa2 M asn "unat times'"] ne
  obtain pa' where "Prepend_loop M asn (unat times') (b\<lparr>ASPath := Some pa2\<rparr>) = Inr (b\<lparr>ASPath := Some pa'\<rparr>)"
    "concat (map ASNs pa') = replicate (unat times') asn @ concat (map ASNs pa2)"
    by auto
  then show ?thesis
    unfolding pre by (auto simp: flat)
qed


theorem Prepend_prepends_and_recomputes_witness:
  "Prepend 255 65001 1 path_full =
     Inr (path_full\<lparr>ASPath := Some [\<lparr>Type = ASSequence, ASNs = 65001 # replicate 255 64512\<rparr>],
                     ASPathLen := 256\<rparr>)
   \<and> (\<exists>pa'. Prepend 255 65001 1 path_full
              = Inr (path_full\<lparr>ASPath := Some pa', ASPathLen := ASPath_Length pa'\<rparr>)
            \<and> concat (map ASNs pa') = replicate (unat (1 :: 16 word)) 65001 @ replicate 255 64512)"
proof -
  have a: "ASPath path_full = Some [\<lparr>Type = ASSequence, ASNs = replicate 255 64512\<rparr>]"
    by (simp add: path_full_def)
  have n: "(1 :: 16 word) \<noteq> 0"
    by simp
  have p: "Prepend 255 65001 1 path_full =
     Inr (path_full\<lparr>ASPath := Some [\<lparr>Type = ASSequence, ASNs = 65001 # replicate 255 64512\<rparr>],
                     ASPathLen := 256\<rparr>)"
    by (simp add: Prepend_def path_full_def path0_def insertNewASSequence_def)
  from Prepend_prepends_and_recomputes [OF a n, of 255 65001] p show ?thesis
    by simp
qed

section \<open>Claims about the external form\<close>

text \<open>
  C8. \<open>BGPPathFromProtoBGPPath\<close> does not set \<open>ASPathLen\<close>, and the external form does
  not carry it: the round trip of a path whose AS path is one SEQUENCE segment of one AS
  number, with \<open>ASPathLen = 1\<close>, is the same path with \<open>ASPathLen = 0\<close>, which
  \<open>Select\<close> and \<open>Equal\<close> tell from the original.
\<close>

theorem round_trip_loses_ASPathLen:
  "round_trip path_seq1 = Inr (path_seq1\<lparr>ASPathLen := 0\<rparr>)
   \<and> Select path_seq1 (path_seq1\<lparr>ASPathLen := 0\<rparr>) = Inr (- 1)
   \<and> Equal path_seq1 (path_seq1\<lparr>ASPathLen := 0\<rparr>) = Inr False"
  by (simp add: round_trip_def ToProto_def BGPPathFromProtoBGPPath_def Dedup_def
      IP_ToProto_def IPFromProtoIP_def ASPath_ToProto_def ASPathFromProtoASPath_def
      LargeCommunity_ToProto_def LargeCommunityFromProtoCommunity_def
      UnknownPathAttribute_ToProto_def UnknownPathAttributeFromProtoUnknownPathAttribute_def
      Equal_def Select_def path_seq1_def path0_def attrs0_def ip4_def)


lemma IP_round_trip: "IPFromProtoIP (IP_ToProto ip) = ip"
  by (simp add: IPFromProtoIP_def IP_ToProto_def)

lemma ASPath_round_trip: "ASPathFromProtoASPath (ASPath_ToProto pa) = pa"
  by (induction pa) (simp_all add: ASPathFromProtoASPath_def ASPath_ToProto_def)

lemma Origin_round_trip: "(ucast (ucast (x :: 8 word) :: 32 word) :: 8 word) = x"
  by (rule ucast_up_ucast_id) (simp add: is_up)

lemma round_trip_eq:
  assumes "BGPPathA p = Some a" and "NextHop a = Some nh" and "Source a = Some src"
    and "ASPath p = Some pa" and "ClusterList p = Some cl" and "Communities p = Some cs"
    and "LargeCommunities p = Some ls" and "UnknownAttributes p = Some us"
  shows "round_trip p =
     Inr (p\<lparr>BGPPathA := Some (a\<lparr>Aggregator := None, AtomicAggregate := False\<rparr>), ASPathLen := 0\<rparr>)"
proof -
  have lm: "map (LargeCommunityFromProtoCommunity \<circ> LargeCommunity_ToProto) ls = ls"
    by (induction ls) (simp_all add: LargeCommunityFromProtoCommunity_def LargeCommunity_ToProto_def)
  have um: "map (UnknownPathAttributeFromProtoUnknownPathAttribute
              \<circ> UnknownPathAttribute_ToProto) us = us"
    by (induction us)
      (simp_all add: UnknownPathAttributeFromProtoUnknownPathAttribute_def
        UnknownPathAttribute_ToProto_def)
  have tp: "ToProto (Some p) = Inr (Some
            \<lparr>pb_PathIdentifier = PathIdentifier p,
             pb_NextHop = Some (IP_ToProto nh),
             pb_LocalPref = LocalPref a,
             pb_AsPath = ASPath_ToProto pa,
             pb_Origin = ucast (Origin a),
             pb_Med = MED a,
             pb_Ebgp = EBGP a,
             pb_BgpIdentifier = BGPIdentifier a,
             pb_Source = Some (IP_ToProto src),
             pb_Communities = cs,
             pb_LargeCommunities = map LargeCommunity_ToProto ls,
             pb_UnknownAttributes = map UnknownPathAttribute_ToProto us,
             pb_OriginatorId = OriginatorID a,
             pb_ClusterList = cl\<rparr>)"
    using assms by (simp add: ToProto_def)
  have a_eq: "\<lparr>NextHop = Some nh, Source = Some src, LocalPref = LocalPref a, MED = MED a,
              BGPIdentifier = BGPIdentifier a, OriginatorID = OriginatorID a,
              Aggregator = None, EBGP = EBGP a, AtomicAggregate = False, Origin = Origin a\<rparr>
            = a\<lparr>Aggregator := None, AtomicAggregate := False\<rparr>"
    using assms(2,3) by (cases a) simp
  have p_eq: "\<lparr>BGPPathA = Some (a\<lparr>Aggregator := None, AtomicAggregate := False\<rparr>),
              ASPath = Some pa, ClusterList = Some cl, Communities = Some cs,
              LargeCommunities = Some ls, UnknownAttributes = Some us,
              PathIdentifier = PathIdentifier p, ASPathLen = 0\<rparr>
            = p\<lparr>BGPPathA := Some (a\<lparr>Aggregator := None, AtomicAggregate := False\<rparr>), ASPathLen := 0\<rparr>"
    using assms(4-8) by (cases p) simp
  show ?thesis
    unfolding round_trip_def tp
    by (simp add: BGPPathFromProtoBGPPath_def Dedup_def IP_round_trip ASPath_round_trip
        Origin_round_trip lm um a_eq p_eq)
qed

text \<open>
  The round trip of a well-formed path in general: it returns the path with \<open>ASPathLen\<close>
  0, without aggregator and atomic-aggregate flag, and \<open>Equal\<close> holds between the path
  and its round trip exactly where the path's \<open>ASPathLen\<close> is 0.
\<close>

theorem round_trip_Equal_iff_ASPathLen_0:
  assumes "well_formed p"
  shows "\<exists>p'. round_trip p = Inr p' \<and> Equal p p' = Inr (ASPathLen p = 0)"
proof -
  from assms obtain a nh src pa cl cs ls us where w: "BGPPathA p = Some a" "NextHop a = Some nh"
      "Source a = Some src" "ASPath p = Some pa" "ClusterList p = Some cl"
      "Communities p = Some cs" "LargeCommunities p = Some ls" "UnknownAttributes p = Some us"
    by (auto simp: well_formed_def split: option.splits)
  let ?a' = "a\<lparr>Aggregator := None, AtomicAggregate := False\<rparr>"
  let ?p' = "p\<lparr>BGPPathA := Some ?a', ASPathLen := 0\<rparr>"
  have rt: "round_trip p = Inr ?p'"
    by (rule round_trip_eq [OF w])
  have keys: "Select p ?p' = Inr (first_nonzero
     [three_way (LocalPref ?a') (LocalPref a),
      three_way (ASPathLen p) (ASPathLen ?p'),
      three_way (Origin a) (Origin ?a'),
      three_way (MED a) (MED ?a'),
      ebgp_way (EBGP a) (EBGP ?a'),
      three_way (effective_identifier ?a') (effective_identifier a),
      three_way (length cl) (length cl),
      - Compare_value src src,
      - Compare_value nh nh])"
    by (rule Select_keys) (simp_all add: w)
  have sel: "Select p ?p' = Inr (three_way (ASPathLen p) 0)"
    unfolding keys
    by (simp add: three_way_def ebgp_way_def effective_identifier_def Compare_value_def)
  have "three_way (ASPathLen p) 0 = 0 \<longleftrightarrow> ASPathLen p = 0"
    by (auto simp: three_way_def word_gt_0)
  then have "Equal p ?p' = Inr (ASPathLen p = 0)"
    by (simp add: Equal_def sel)
  with rt show ?thesis by blast
qed


theorem round_trip_Equal_iff_ASPathLen_0_witness:
  "well_formed path0 \<and> round_trip path0 = Inr path0 \<and> Equal path0 path0 = Inr True
   \<and> well_formed path_seq1 \<and> round_trip path_seq1 = Inr (path_seq1\<lparr>ASPathLen := 0\<rparr>)
   \<and> Equal path_seq1 (path_seq1\<lparr>ASPathLen := 0\<rparr>) = Inr False"
proof -
  have w0: "well_formed path0"
    by (simp add: well_formed_def path0_def attrs0_def)
  have w1: "well_formed path_seq1"
    by (simp add: well_formed_def path_seq1_def path0_def attrs0_def)
  have r0: "round_trip path0 = Inr path0"
    using round_trip_eq [of path0 attrs0 "ip4 1" "ip4 2" "[]" "[]" "[]" "[]" "[]"]
    by (simp add: path0_def attrs0_def)
  have r1: "round_trip path_seq1 = Inr (path_seq1\<lparr>ASPathLen := 0\<rparr>)"
    using round_trip_eq [of path_seq1 attrs0 "ip4 1" "ip4 2"
        "[\<lparr>Type = ASSequence, ASNs = [65001]\<rparr>]" "[]" "[]" "[]" "[]"]
    by (simp add: path_seq1_def path0_def attrs0_def)
  have l0: "ASPathLen path0 = 0" and l1: "ASPathLen path_seq1 \<noteq> 0"
    by (simp_all add: path_seq1_def path0_def)
  from round_trip_Equal_iff_ASPathLen_0 [OF w0] r0 l0
  have e0: "Equal path0 path0 = Inr True"
    by auto
  from round_trip_Equal_iff_ASPathLen_0 [OF w1] r1 l1
  have e1: "Equal path_seq1 (path_seq1\<lparr>ASPathLen := 0\<rparr>) = Inr False"
    by auto
  from w0 w1 r0 r1 e0 e1 show ?thesis
    by simp
qed

section \<open>Claims about Copy\<close>

lemma Copy_store0: "Copy (Some 0) store0 = Inr (Some 12, store1)"
  by (simp add: Copy_def copy_uint32s_def copy_large_def store0_def store1_def obj0_def
      new_aspath_def new_uint32s_def new_large_def new_path_def)

lemma load_store0: "load_path store0 0 = Some value0"
  by (simp add: load_path_def load_ptr_def load_aspath_def load_segment_def store0_def
      obj0_def value0_def)

lemma load_store1: "load_path store1 0 = Some value0 \<and> load_path store1 12 = Some value0"
  by (simp add: load_path_def load_ptr_def load_aspath_def load_segment_def store1_def
      obj0_def value0_def)

text \<open>
  C7. \<open>Copy\<close> shares the attribute set, as the claim says, and replaces the AS path, the
  communities, the large communities and the cluster list by new slices. It does not
  replace \<open>UnknownAttributes\<close>, and the new AS path holds the segments with the slice
  headers of their \<open>ASNs\<close>: the copy (at address 12) and the original (at 0) have the same
  value, and an assignment to an unknown attribute or to an AS number through the copy
  changes the value of the original, where an assignment to a community does not.
\<close>

theorem Copy_shares_UnknownAttributes_and_ASNs:
  "load_path store0 0 = Some value0
   \<and> Copy (Some 0) store0 = Inr (Some 12, store1)
   \<and> load_path store1 0 = Some value0
   \<and> load_path store1 12 = Some value0
   \<and> assign_UnknownAttribute 12 0 ua1 store1
        = Inr (store1\<lparr>unknown_at := (unknown_at store1)(7 \<mapsto> [ua1])\<rparr>)
   \<and> load_path (store1\<lparr>unknown_at := (unknown_at store1)(7 \<mapsto> [ua1])\<rparr>) 0
        = Some (value0\<lparr>UnknownAttributes := Some [ua1]\<rparr>)
   \<and> assign_ASN 12 0 0 64999 store1
        = Inr (store1\<lparr>uint32s_at := (uint32s_at store1)(3 \<mapsto> [64999])\<rparr>)
   \<and> load_path (store1\<lparr>uint32s_at := (uint32s_at store1)(3 \<mapsto> [64999])\<rparr>) 0
        = Some (value0\<lparr>ASPath := Some [\<lparr>Type = ASSequence, ASNs = [64999]\<rparr>]\<rparr>)
   \<and> assign_Community 12 0 555 store1
        = Inr (store1\<lparr>uint32s_at := (uint32s_at store1)(9 \<mapsto> [555])\<rparr>)
   \<and> load_path (store1\<lparr>uint32s_at := (uint32s_at store1)(9 \<mapsto> [555])\<rparr>) 0 = Some value0"
proof -
  have a: "assign_UnknownAttribute 12 0 ua1 store1
        = Inr (store1\<lparr>unknown_at := (unknown_at store1)(7 \<mapsto> [ua1])\<rparr>)"
    by (simp add: assign_UnknownAttribute_def store1_def obj0_def)
  have b: "load_path (store1\<lparr>unknown_at := (unknown_at store1)(7 \<mapsto> [ua1])\<rparr>) 0
        = Some (value0\<lparr>UnknownAttributes := Some [ua1]\<rparr>)"
    by (simp add: load_path_def load_ptr_def load_aspath_def load_segment_def store1_def
        obj0_def value0_def)
  have c: "assign_ASN 12 0 0 64999 store1
        = Inr (store1\<lparr>uint32s_at := (uint32s_at store1)(3 \<mapsto> [64999])\<rparr>)"
    by (simp add: assign_ASN_def store1_def obj0_def)
  have d: "load_path (store1\<lparr>uint32s_at := (uint32s_at store1)(3 \<mapsto> [64999])\<rparr>) 0
        = Some (value0\<lparr>ASPath := Some [\<lparr>Type = ASSequence, ASNs = [64999]\<rparr>]\<rparr>)"
    by (simp add: load_path_def load_ptr_def load_aspath_def load_segment_def store1_def
        obj0_def value0_def)
  have e: "assign_Community 12 0 555 store1
        = Inr (store1\<lparr>uint32s_at := (uint32s_at store1)(9 \<mapsto> [555])\<rparr>)"
    by (simp add: assign_Community_def store1_def obj0_def)
  have f: "load_path (store1\<lparr>uint32s_at := (uint32s_at store1)(9 \<mapsto> [555])\<rparr>) 0 = Some value0"
    by (simp add: load_path_def load_ptr_def load_aspath_def load_segment_def store1_def
        obj0_def value0_def)
  from load_store0 Copy_store0 load_store1 a b c d e f show ?thesis
    by (simp only: simp_thms)
qed


text \<open>
  In every store: the path \<open>Copy\<close> returns holds the attribute-set pointer and the
  unknown-attributes pointer of the original, and \<open>Copy\<close> writes neither an attribute
  set nor an unknown-attributes slice.
\<close>

theorem Copy_shares_pointers:
  assumes "Copy (Some a) h = Inr (r, h')"
  shows "\<exists>b cp c. path_at h a = Some b \<and> r = Some cp \<and> path_at h' cp = Some c
          \<and> ptr_BGPPathA c = ptr_BGPPathA b
          \<and> ptr_UnknownAttributes c = ptr_UnknownAttributes b
          \<and> unknown_at h' = unknown_at h \<and> attrs_at h' = attrs_at h"
  using assms
  by (auto simp: Copy_def copy_uint32s_def copy_large_def new_aspath_def new_uint32s_def
      new_large_def new_path_def Let_def split: option.splits sum.splits prod.splits)


theorem Copy_shares_pointers_witness:
  "Copy (Some 0) store0 = Inr (Some 12, store1)
   \<and> map_option ptr_UnknownAttributes (path_at store1 12) = Some (Some 7)
   \<and> map_option ptr_UnknownAttributes (path_at store0 0) = Some (Some 7)
   \<and> map_option ptr_BGPPathA (path_at store1 12) = Some (Some 1)
   \<and> map_option ptr_BGPPathA (path_at store0 0) = Some (Some 1)"
proof -
  have c: "Copy (Some 0) store0 = Inr (Some 12, store1)"
    by (rule Copy_store0)
  have p: "path_at store0 0 = Some obj0"
    by (simp add: store0_def)
  from Copy_shares_pointers [OF c] p
  have "map_option ptr_UnknownAttributes (path_at store1 12) = Some (ptr_UnknownAttributes obj0)
      \<and> map_option ptr_BGPPathA (path_at store1 12) = Some (ptr_BGPPathA obj0)"
    by auto
  with c p show ?thesis
    by (simp add: obj0_def)
qed

section \<open>Copy in every store\<close>

text \<open>
  Allocation keeps the store in order and keeps every object.
\<close>

lemma keeps_refl: "keeps h h"
  by (simp add: keeps_def)

lemma keeps_trans: "keeps h h' \<Longrightarrow> keeps h' h'' \<Longrightarrow> keeps h h''"
  unfolding keeps_def by (blast intro: map_le_trans le_trans)

lemma map_le_fresh: "m a = None \<Longrightarrow> m \<subseteq>\<^sub>m m(a \<mapsto> x)"
  by (auto simp: map_le_def)

lemma store_ok_free:
  assumes "store_ok h"
  shows "path_at h (next_addr h) = None" "attrs_at h (next_addr h) = None"
    "aspath_at h (next_addr h) = None" "uint32s_at h (next_addr h) = None"
    "large_at h (next_addr h) = None" "unknown_at h (next_addr h) = None"
  using assms by (simp_all add: store_ok_def)

lemma new_aspath_keeps:
  assumes "store_ok h" and "new_aspath segs h = (a, h')"
  shows "store_ok h'" "keeps h h'" "a = next_addr h" "aspath_at h' a = Some segs"
proof -
  from assms(2) have h': "h' = h\<lparr>aspath_at := (aspath_at h)(next_addr h \<mapsto> segs),
      next_addr := Suc (next_addr h)\<rparr>" and a: "a = next_addr h"
    by (auto simp: new_aspath_def)
  show "a = next_addr h" by (rule a)
  show "aspath_at h' a = Some segs" by (simp add: h' a)
  show "keeps h h'" by (simp add: keeps_def h' map_le_fresh store_ok_free [OF assms(1)])
  show "store_ok h'" using assms(1) by (simp add: store_ok_def h')
qed

lemma new_uint32s_keeps:
  assumes "store_ok h" and "new_uint32s xs h = (a, h')"
  shows "store_ok h'" "keeps h h'" "a = next_addr h" "uint32s_at h' a = Some xs"
proof -
  from assms(2) have h': "h' = h\<lparr>uint32s_at := (uint32s_at h)(next_addr h \<mapsto> xs),
      next_addr := Suc (next_addr h)\<rparr>" and a: "a = next_addr h"
    by (auto simp: new_uint32s_def)
  show "a = next_addr h" by (rule a)
  show "uint32s_at h' a = Some xs" by (simp add: h' a)
  show "keeps h h'" by (simp add: keeps_def h' map_le_fresh store_ok_free [OF assms(1)])
  show "store_ok h'" using assms(1) by (simp add: store_ok_def h')
qed

lemma new_large_keeps:
  assumes "store_ok h" and "new_large ls h = (a, h')"
  shows "store_ok h'" "keeps h h'" "a = next_addr h" "large_at h' a = Some ls"
proof -
  from assms(2) have h': "h' = h\<lparr>large_at := (large_at h)(next_addr h \<mapsto> ls),
      next_addr := Suc (next_addr h)\<rparr>" and a: "a = next_addr h"
    by (auto simp: new_large_def)
  show "a = next_addr h" by (rule a)
  show "large_at h' a = Some ls" by (simp add: h' a)
  show "keeps h h'" by (simp add: keeps_def h' map_le_fresh store_ok_free [OF assms(1)])
  show "store_ok h'" using assms(1) by (simp add: store_ok_def h')
qed

lemma new_path_keeps:
  assumes "store_ok h" and "new_path b h = (a, h')"
  shows "store_ok h'" "keeps h h'" "a = next_addr h" "path_at h' a = Some b"
proof -
  from assms(2) have h': "h' = h\<lparr>path_at := (path_at h)(next_addr h \<mapsto> b),
      next_addr := Suc (next_addr h)\<rparr>" and a: "a = next_addr h"
    by (auto simp: new_path_def)
  show "a = next_addr h" by (rule a)
  show "path_at h' a = Some b" by (simp add: h' a)
  show "keeps h h'" by (simp add: keeps_def h' map_le_fresh store_ok_free [OF assms(1)])
  show "store_ok h'" using assms(1) by (simp add: store_ok_def h')
qed

lemma copy_uint32s_keeps:
  assumes ok: "store_ok h" and c: "copy_uint32s p h = Inr (p', h')"
  shows "store_ok h'" "keeps h h'"
    "load_ptr (uint32s_at h') p' = load_ptr (uint32s_at h) p"
    "p' = None \<longleftrightarrow> p = None" "\<And>a. p' = Some a \<Longrightarrow> next_addr h \<le> a"
proof -
  have "store_ok h' \<and> keeps h h' \<and> load_ptr (uint32s_at h') p' = load_ptr (uint32s_at h) p
      \<and> (p' = None \<longleftrightarrow> p = None) \<and> (\<forall>a. p' = Some a \<longrightarrow> next_addr h \<le> a)"
  proof (cases p)
    case None
    with c have "p' = None" "h' = h" by (simp_all add: copy_uint32s_def)
    with ok None show ?thesis by (simp add: keeps_refl)
  next
    case (Some a)
    with c obtain xs where xs: "uint32s_at h a = Some xs"
      by (cases "uint32s_at h a") (simp_all add: copy_uint32s_def)
    obtain a' h1 where n: "new_uint32s xs h = (a', h1)"
      by (cases "new_uint32s xs h")
    with c Some xs have r: "p' = Some a'" "h' = h1"
      by (simp_all add: copy_uint32s_def)
    note k = new_uint32s_keeps [OF ok n]
    show ?thesis
      using k by (simp add: r Some xs load_ptr_def)
  qed
  then show "store_ok h'" "keeps h h'"
    "load_ptr (uint32s_at h') p' = load_ptr (uint32s_at h) p"
    "p' = None \<longleftrightarrow> p = None" "\<And>a. p' = Some a \<Longrightarrow> next_addr h \<le> a"
    by simp_all
qed

lemma copy_large_keeps:
  assumes ok: "store_ok h" and c: "copy_large p h = Inr (p', h')"
  shows "store_ok h'" "keeps h h'"
    "load_ptr (large_at h') p' = load_ptr (large_at h) p"
    "p' = None \<longleftrightarrow> p = None" "\<And>a. p' = Some a \<Longrightarrow> next_addr h \<le> a"
proof -
  have "store_ok h' \<and> keeps h h' \<and> load_ptr (large_at h') p' = load_ptr (large_at h) p
      \<and> (p' = None \<longleftrightarrow> p = None) \<and> (\<forall>a. p' = Some a \<longrightarrow> next_addr h \<le> a)"
  proof (cases p)
    case None
    with c have "p' = None" "h' = h" by (simp_all add: copy_large_def)
    with ok None show ?thesis by (simp add: keeps_refl)
  next
    case (Some a)
    with c obtain xs where xs: "large_at h a = Some xs"
      by (cases "large_at h a") (simp_all add: copy_large_def)
    obtain a' h1 where n: "new_large xs h = (a', h1)"
      by (cases "new_large xs h")
    with c Some xs have r: "p' = Some a'" "h' = h1"
      by (simp_all add: copy_large_def)
    note k = new_large_keeps [OF ok n]
    show ?thesis
      using k by (simp add: r Some xs load_ptr_def)
  qed
  then show "store_ok h'" "keeps h h'"
    "load_ptr (large_at h') p' = load_ptr (large_at h) p"
    "p' = None \<longleftrightarrow> p = None" "\<And>a. p' = Some a \<Longrightarrow> next_addr h \<le> a"
    by simp_all
qed

text \<open>Whatever loads in a store loads, with the same value, in a store that keeps it.\<close>

lemma map_le_Some: "m \<subseteq>\<^sub>m m' \<Longrightarrow> m a = Some x \<Longrightarrow> m' a = Some x"
  by (metis domI map_le_def)

lemma load_ptr_keeps:
  assumes "m \<subseteq>\<^sub>m m'" and "load_ptr m p = Some v"
  shows "load_ptr m' p = Some v"
  using assms by (cases p) (auto simp: load_ptr_def dest: map_le_Some)

lemma load_segment_keeps:
  assumes "keeps h h'" and "load_segment h s = Some v"
  shows "load_segment h' s = Some v"
  using assms
  by (cases "seg_ASNs s") (auto simp: load_segment_def keeps_def dest: map_le_Some)

lemma those_load_segment_keeps:
  assumes "keeps h h'" and "those (map (load_segment h) segs) = Some vs"
  shows "those (map (load_segment h') segs) = Some vs"
  using assms(2)
proof (induction segs arbitrary: vs)
  case Nil
  then show ?case by simp
next
  case (Cons s segs)
  from Cons.prems obtain v vs' where v: "load_segment h s = Some v"
    and vs': "those (map (load_segment h) segs) = Some vs'" and e: "vs = v # vs'"
    by (auto split: option.splits)
  from load_segment_keeps [OF assms(1) v] Cons.IH [OF vs'] e show ?case
    by simp
qed

lemma load_aspath_keeps:
  assumes "keeps h h'" and "load_aspath h p = Some v"
  shows "load_aspath h' p = Some v"
proof (cases p)
  case None
  with assms(2) show ?thesis by (simp add: load_aspath_def)
next
  case (Some a)
  with assms(2) obtain segs vs where s: "aspath_at h a = Some segs"
    and t: "those (map (load_segment h) segs) = Some vs" and v: "v = Some vs"
    by (auto simp: load_aspath_def split: option.splits)
  from assms(1) s have s': "aspath_at h' a = Some segs"
    by (auto simp: keeps_def dest: map_le_Some)
  from those_load_segment_keeps [OF assms(1) t] show ?thesis
    by (simp add: load_aspath_def Some s' v)
qed

lemma load_path_keeps:
  assumes k: "keeps h h'" and l: "load_path h a = Some v"
  shows "load_path h' a = Some v"
proof -
  from l obtain b pathA asPath clusterList communities largeCommunities unknownAttributes
    where b: "path_at h a = Some b"
      and f: "load_ptr (attrs_at h) (ptr_BGPPathA b) = Some pathA"
        "load_aspath h (ptr_ASPath b) = Some asPath"
        "load_ptr (uint32s_at h) (ptr_ClusterList b) = Some clusterList"
        "load_ptr (uint32s_at h) (ptr_Communities b) = Some communities"
        "load_ptr (large_at h) (ptr_LargeCommunities b) = Some largeCommunities"
        "load_ptr (unknown_at h) (ptr_UnknownAttributes b) = Some unknownAttributes"
      and v: "v = \<lparr>BGPPathA = pathA, ASPath = asPath, ClusterList = clusterList,
             Communities = communities, LargeCommunities = largeCommunities,
             UnknownAttributes = unknownAttributes, PathIdentifier = obj_PathIdentifier b,
             ASPathLen = obj_ASPathLen b\<rparr>"
    by (auto simp: load_path_def split: option.splits)
  from k have m: "path_at h \<subseteq>\<^sub>m path_at h'" "attrs_at h \<subseteq>\<^sub>m attrs_at h'"
      "uint32s_at h \<subseteq>\<^sub>m uint32s_at h'" "large_at h \<subseteq>\<^sub>m large_at h'"
      "unknown_at h \<subseteq>\<^sub>m unknown_at h'"
    by (simp_all add: keeps_def)
  have b': "path_at h' a = Some b"
    by (rule map_le_Some [OF m(1) b])
  show ?thesis
    by (simp add: load_path_def b' v
        load_ptr_keeps [OF m(2) f(1)] load_aspath_keeps [OF k f(2)]
        load_ptr_keeps [OF m(3) f(3)] load_ptr_keeps [OF m(3) f(4)]
        load_ptr_keeps [OF m(4) f(5)] load_ptr_keeps [OF m(5) f(6)])
qed

lemma Copy_steps:
  assumes c: "Copy (Some a) h = Inr (r, h')" and b: "path_at h a = Some b"
  obtains ap segs asPath h1 communities h2 largeCommunities h3 clusterList h4 cpaddr
  where "ptr_ASPath b = Some ap" and "aspath_at h ap = Some segs"
    and "new_aspath segs h = (asPath, h1)"
    and "copy_uint32s (ptr_Communities b) h1 = Inr (communities, h2)"
    and "copy_large (ptr_LargeCommunities b) h2 = Inr (largeCommunities, h3)"
    and "copy_uint32s (ptr_ClusterList b) h3 = Inr (clusterList, h4)"
    and "new_path (b\<lparr>ptr_ASPath := Some asPath, ptr_Communities := communities,
            ptr_LargeCommunities := largeCommunities, ptr_ClusterList := clusterList\<rparr>) h4
          = (cpaddr, h')"
    and "r = Some cpaddr"
proof -
  from c b obtain ap where ap: "ptr_ASPath b = Some ap"
    by (cases "ptr_ASPath b") (simp_all add: Copy_def)
  from c b ap obtain segs where segs: "aspath_at h ap = Some segs"
    by (cases "aspath_at h ap") (simp_all add: Copy_def)
  obtain asPath h1 where n1: "new_aspath segs h = (asPath, h1)"
    by (cases "new_aspath segs h")
  from c b ap segs n1 obtain communities h2
    where c2: "copy_uint32s (ptr_Communities b) h1 = Inr (communities, h2)"
    by (cases "copy_uint32s (ptr_Communities b) h1") (auto simp: Copy_def)
  from c b ap segs n1 c2 obtain largeCommunities h3
    where c3: "copy_large (ptr_LargeCommunities b) h2 = Inr (largeCommunities, h3)"
    by (cases "copy_large (ptr_LargeCommunities b) h2") (auto simp: Copy_def)
  from c b ap segs n1 c2 c3 obtain clusterList h4
    where c4: "copy_uint32s (ptr_ClusterList b) h3 = Inr (clusterList, h4)"
    by (cases "copy_uint32s (ptr_ClusterList b) h3") (auto simp: Copy_def)
  let ?cp4 = "b\<lparr>ptr_ASPath := Some asPath, ptr_Communities := communities,
            ptr_LargeCommunities := largeCommunities, ptr_ClusterList := clusterList\<rparr>"
  obtain cpaddr h5 where n5: "new_path ?cp4 h4 = (cpaddr, h5)"
    by (cases "new_path ?cp4 h4")
  from c b ap segs n1 c2 c3 c4 n5 have "r = Some cpaddr" "h' = h5"
    by (simp_all add: Copy_def)
  with that ap segs n1 c2 c3 c4 n5 show thesis
    by blast
qed

lemma Copy_result:
  assumes ok: "store_ok h" and l: "load_path h a = Some v"
    and c: "Copy (Some a) h = Inr (r, h')"
  shows "\<exists>cp b c. r = Some cp \<and> path_at h a = Some b \<and> path_at h' cp = Some c
           \<and> keeps h h' \<and> next_addr h \<le> cp
           \<and> ptr_BGPPathA c = ptr_BGPPathA b
           \<and> ptr_UnknownAttributes c = ptr_UnknownAttributes b
           \<and> (\<forall>x. ptr_ASPath c = Some x \<longrightarrow> next_addr h \<le> x)
           \<and> (\<forall>x. ptr_Communities c = Some x \<longrightarrow> next_addr h \<le> x)
           \<and> (\<forall>x. ptr_LargeCommunities c = Some x \<longrightarrow> next_addr h \<le> x)
           \<and> (\<forall>x. ptr_ClusterList c = Some x \<longrightarrow> next_addr h \<le> x)
           \<and> load_path h' a = Some v \<and> load_path h' cp = Some v"
proof -
  from l obtain b pathA asPathv clusterListv communitiesv largeCommunitiesv unknownAttributesv
    where b: "path_at h a = Some b"
      and f: "load_ptr (attrs_at h) (ptr_BGPPathA b) = Some pathA"
        "load_aspath h (ptr_ASPath b) = Some asPathv"
        "load_ptr (uint32s_at h) (ptr_ClusterList b) = Some clusterListv"
        "load_ptr (uint32s_at h) (ptr_Communities b) = Some communitiesv"
        "load_ptr (large_at h) (ptr_LargeCommunities b) = Some largeCommunitiesv"
        "load_ptr (unknown_at h) (ptr_UnknownAttributes b) = Some unknownAttributesv"
      and v: "v = \<lparr>BGPPathA = pathA, ASPath = asPathv, ClusterList = clusterListv,
             Communities = communitiesv, LargeCommunities = largeCommunitiesv,
             UnknownAttributes = unknownAttributesv, PathIdentifier = obj_PathIdentifier b,
             ASPathLen = obj_ASPathLen b\<rparr>"
    by (auto simp: load_path_def split: option.splits)
  from c b obtain ap segs asPath h1 communities h2 largeCommunities h3 clusterList h4 cpaddr
    where ap: "ptr_ASPath b = Some ap" and segs: "aspath_at h ap = Some segs"
      and n1: "new_aspath segs h = (asPath, h1)"
      and c2: "copy_uint32s (ptr_Communities b) h1 = Inr (communities, h2)"
      and c3: "copy_large (ptr_LargeCommunities b) h2 = Inr (largeCommunities, h3)"
      and c4: "copy_uint32s (ptr_ClusterList b) h3 = Inr (clusterList, h4)"
      and n5: "new_path (b\<lparr>ptr_ASPath := Some asPath, ptr_Communities := communities,
            ptr_LargeCommunities := largeCommunities, ptr_ClusterList := clusterList\<rparr>) h4
          = (cpaddr, h')"
      and r: "r = Some cpaddr"
    by (rule Copy_steps)
  note k1 = new_aspath_keeps [OF ok n1]
  note k2 = copy_uint32s_keeps [OF k1(1) c2]
  note k3 = copy_large_keeps [OF k2(1) c3]
  note k4 = copy_uint32s_keeps [OF k3(1) c4]
  note k5 = new_path_keeps [OF k4(1) n5]
  have k01: "keeps h h1" by (rule k1(2))
  have k02: "keeps h h2" by (rule keeps_trans [OF k01 k2(2)])
  have k03: "keeps h h3" by (rule keeps_trans [OF k02 k3(2)])
  have k04: "keeps h h4" by (rule keeps_trans [OF k03 k4(2)])
  have k05: "keeps h h'" by (rule keeps_trans [OF k04 k5(2)])
  have k15: "keeps h1 h'"
    by (rule keeps_trans [OF k2(2) keeps_trans [OF k3(2) keeps_trans [OF k4(2) k5(2)]]])
  have k25: "keeps h2 h'"
    by (rule keeps_trans [OF k3(2) keeps_trans [OF k4(2) k5(2)]])
  have k35: "keeps h3 h'"
    by (rule keeps_trans [OF k4(2) k5(2)])
  have k45: "keeps h4 h'"
    by (rule k5(2))
  have fresh: "next_addr h \<le> cpaddr"
    using k5(3) k04 by (simp add: keeps_def)
  have orig: "load_path h' a = Some v"
    by (rule load_path_keeps [OF k05 l])
  \<comment> \<open>the fields of the copy\<close>
  have A: "load_ptr (attrs_at h') (ptr_BGPPathA b) = Some pathA"
    using k05 f(1) by (auto simp: keeps_def intro: load_ptr_keeps)
  have U: "load_ptr (unknown_at h') (ptr_UnknownAttributes b) = Some unknownAttributesv"
    using k05 f(6) by (auto simp: keeps_def intro: load_ptr_keeps)
  from f(2) ap segs obtain vs where vs: "those (map (load_segment h) segs) = Some vs"
    and av: "asPathv = Some vs"
    by (auto simp: load_aspath_def split: option.splits)
  have "aspath_at h' asPath = Some segs"
    using k15 k1(4) by (auto simp: keeps_def dest: map_le_Some)
  then have P: "load_aspath h' (Some asPath) = Some asPathv"
    using those_load_segment_keeps [OF k05 vs] by (simp add: load_aspath_def av)
  have "load_ptr (uint32s_at h2) communities = Some communitiesv"
    using k2(3) k01 f(4) by (auto simp: keeps_def intro: load_ptr_keeps)
  then have C: "load_ptr (uint32s_at h') communities = Some communitiesv"
    using k25 by (auto simp: keeps_def intro: load_ptr_keeps)
  have "load_ptr (large_at h3) largeCommunities = Some largeCommunitiesv"
    using k3(3) k02 f(5) by (auto simp: keeps_def intro: load_ptr_keeps)
  then have L: "load_ptr (large_at h') largeCommunities = Some largeCommunitiesv"
    using k35 by (auto simp: keeps_def intro: load_ptr_keeps)
  have "load_ptr (uint32s_at h4) clusterList = Some clusterListv"
    using k4(3) k03 f(3) by (auto simp: keeps_def intro: load_ptr_keeps)
  then have K: "load_ptr (uint32s_at h') clusterList = Some clusterListv"
    using k45 by (auto simp: keeps_def intro: load_ptr_keeps)
  have copy: "load_path h' cpaddr = Some v"
    by (simp add: load_path_def k5(4) A U P C L K v)
  have n01: "next_addr h \<le> next_addr h1" "next_addr h \<le> next_addr h2"
      "next_addr h \<le> next_addr h3"
    using k01 k02 k03 by (simp_all add: keeps_def)
  have F1: "next_addr h \<le> asPath"
    by (simp add: k1(3))
  have F2: "\<forall>x. communities = Some x \<longrightarrow> next_addr h \<le> x"
    using k2(5) n01(1) by (auto intro: le_trans)
  have F3: "\<forall>x. largeCommunities = Some x \<longrightarrow> next_addr h \<le> x"
    using k3(5) n01(2) by (auto intro: le_trans)
  have F4: "\<forall>x. clusterList = Some x \<longrightarrow> next_addr h \<le> x"
    using k4(5) n01(3) by (auto intro: le_trans)
  show ?thesis
    using r b k5(4) k05 fresh F1 F2 F3 F4 orig copy by simp
qed


lemma map_le_update_fresh:
  assumes "m \<subseteq>\<^sub>m m'" and "m x = None"
  shows "m \<subseteq>\<^sub>m m'(x \<mapsto> y)"
  using assms by (auto simp: map_le_def)

lemma keeps_update_fresh:
  assumes "store_ok h" and "keeps h h'" and "next_addr h \<le> x"
  shows "keeps h (h'\<lparr>uint32s_at := (uint32s_at h')(x \<mapsto> ys)\<rparr>)"
    "keeps h (h'\<lparr>large_at := (large_at h')(x \<mapsto> ls)\<rparr>)"
    "keeps h (h'\<lparr>aspath_at := (aspath_at h')(x \<mapsto> segs)\<rparr>)"
  using assms by (simp_all add: keeps_def store_ok_def map_le_update_fresh)

lemma store_ok_store0: "store_ok store0"
  by (auto simp: store_ok_def store0_def)

text \<open>
  In a store in order, \<open>Copy\<close> of a path with value \<open>v\<close> returns a new address,
  and in the store it returns both the original and the copy have the value \<open>v\<close>.
\<close>

theorem Copy_keeps_value:
  assumes "store_ok h" and "load_path h a = Some v" and "Copy (Some a) h = Inr (r, h')"
  shows "\<exists>cp. r = Some cp \<and> next_addr h \<le> cp
           \<and> load_path h' a = Some v \<and> load_path h' cp = Some v"
  using Copy_result [OF assms] by blast


theorem Copy_keeps_value_witness:
  "store_ok store0 \<and> load_path store0 0 = Some value0
   \<and> Copy (Some 0) store0 = Inr (Some 12, store1)
   \<and> next_addr store0 \<le> 12
   \<and> load_path store1 0 = Some value0 \<and> load_path store1 12 = Some value0"
  using Copy_keeps_value [OF store_ok_store0 load_store0 Copy_store0]
    store_ok_store0 load_store0 Copy_store0
  by simp

text \<open>
  In a store in order, an assignment through the copy to a community, a cluster ID, a
  large community or a whole AS-path segment leaves the value of the original as it was.
\<close>

theorem Copy_independent:
  assumes ok: "store_ok h" and l: "load_path h a = Some v"
    and c: "Copy (Some a) h = Inr (Some cp, h')"
  shows "(assign_Community cp i x h' = Inr h'' \<longrightarrow> load_path h'' a = Some v)
    \<and> (assign_ClusterID cp i x h' = Inr h'' \<longrightarrow> load_path h'' a = Some v)
    \<and> (assign_LargeCommunity cp i lc h' = Inr h'' \<longrightarrow> load_path h'' a = Some v)
    \<and> (assign_Segment cp i seg h' = Inr h'' \<longrightarrow> load_path h'' a = Some v)"
proof -
  from Copy_result [OF ok l c] obtain b c where o: "path_at h' cp = Some c"
      and k: "keeps h h'"
      and F: "\<forall>x. ptr_ASPath c = Some x \<longrightarrow> next_addr h \<le> x"
        "\<forall>x. ptr_Communities c = Some x \<longrightarrow> next_addr h \<le> x"
        "\<forall>x. ptr_LargeCommunities c = Some x \<longrightarrow> next_addr h \<le> x"
        "\<forall>x. ptr_ClusterList c = Some x \<longrightarrow> next_addr h \<le> x"
    by auto
  note u = keeps_update_fresh [OF ok k]
  have 1: "assign_Community cp i x h' = Inr h'' \<longrightarrow> load_path h'' a = Some v"
    using F(2) by (auto simp: assign_Community_def o split: option.splits if_splits
        intro!: load_path_keeps [OF u(1) l])
  have 2: "assign_ClusterID cp i x h' = Inr h'' \<longrightarrow> load_path h'' a = Some v"
    using F(4) by (auto simp: assign_ClusterID_def o split: option.splits if_splits
        intro!: load_path_keeps [OF u(1) l])
  have 3: "assign_LargeCommunity cp i lc h' = Inr h'' \<longrightarrow> load_path h'' a = Some v"
    using F(3) by (auto simp: assign_LargeCommunity_def o split: option.splits if_splits
        intro!: load_path_keeps [OF u(2) l])
  have 4: "assign_Segment cp i seg h' = Inr h'' \<longrightarrow> load_path h'' a = Some v"
    using F(1) by (auto simp: assign_Segment_def o split: option.splits if_splits
        intro!: load_path_keeps [OF u(3) l])
  from 1 2 3 4 show ?thesis by simp
qed

theorem Copy_independent_witness:
  "store_ok store0 \<and> load_path store0 0 = Some value0
   \<and> Copy (Some 0) store0 = Inr (Some 12, store1)
   \<and> assign_Community 12 0 555 store1
        = Inr (store1\<lparr>uint32s_at := (uint32s_at store1)(9 \<mapsto> [555])\<rparr>)
   \<and> load_path (store1\<lparr>uint32s_at := (uint32s_at store1)(9 \<mapsto> [555])\<rparr>) 0 = Some value0"
proof -
  have e: "assign_Community 12 0 555 store1
        = Inr (store1\<lparr>uint32s_at := (uint32s_at store1)(9 \<mapsto> [555])\<rparr>)"
    by (simp add: assign_Community_def store1_def obj0_def)
  from Copy_independent [OF store_ok_store0 load_store0 Copy_store0,
      of 0 555 "store1\<lparr>uint32s_at := (uint32s_at store1)(9 \<mapsto> [555])\<rparr>"] e
  have "load_path (store1\<lparr>uint32s_at := (uint32s_at store1)(9 \<mapsto> [555])\<rparr>) 0 = Some value0"
    by simp
  with store_ok_store0 load_store0 Copy_store0 e show ?thesis
    by simp
qed

text \<open>
  In a store in order, \<open>Copy\<close> of a path that loads and has an AS path returns: it
  does not panic.
\<close>

theorem Copy_total:
  assumes ok: "store_ok h" and l: "load_path h a = Some v" and p: "ASPath v \<noteq> None"
  shows "\<exists>cp h'. Copy (Some a) h = Inr (Some cp, h')"
proof -
  from l obtain b pathA asPathv clusterListv communitiesv largeCommunitiesv unknownAttributesv
    where b: "path_at h a = Some b"
      and f: "load_aspath h (ptr_ASPath b) = Some asPathv"
        "load_ptr (uint32s_at h) (ptr_ClusterList b) = Some clusterListv"
        "load_ptr (uint32s_at h) (ptr_Communities b) = Some communitiesv"
        "load_ptr (large_at h) (ptr_LargeCommunities b) = Some largeCommunitiesv"
      and v: "ASPath v = asPathv"
    by (auto simp: load_path_def split: option.splits)
  from p v f(1) obtain ap segs where ap: "ptr_ASPath b = Some ap"
      and segs: "aspath_at h ap = Some segs"
    by (auto simp: load_aspath_def split: option.splits)
  obtain asPath h1 where n1: "new_aspath segs h = (asPath, h1)"
    by (cases "new_aspath segs h")
  note k1 = new_aspath_keeps [OF ok n1]
  have "load_ptr (uint32s_at h1) (ptr_Communities b) = Some communitiesv"
    using k1(2) f(3) by (auto simp: keeps_def intro: load_ptr_keeps)
  then obtain communities h2
    where c2: "copy_uint32s (ptr_Communities b) h1 = Inr (communities, h2)"
    by (auto simp: copy_uint32s_def load_ptr_def new_uint32s_def split: option.splits)
  note k2 = copy_uint32s_keeps [OF k1(1) c2]
  have "load_ptr (large_at h2) (ptr_LargeCommunities b) = Some largeCommunitiesv"
    using keeps_trans [OF k1(2) k2(2)] f(4) by (auto simp: keeps_def intro: load_ptr_keeps)
  then obtain largeCommunities h3
    where c3: "copy_large (ptr_LargeCommunities b) h2 = Inr (largeCommunities, h3)"
    by (auto simp: copy_large_def load_ptr_def new_large_def split: option.splits)
  note k3 = copy_large_keeps [OF k2(1) c3]
  have "load_ptr (uint32s_at h3) (ptr_ClusterList b) = Some clusterListv"
    using keeps_trans [OF keeps_trans [OF k1(2) k2(2)] k3(2)] f(2)
    by (auto simp: keeps_def intro: load_ptr_keeps)
  then obtain clusterList h4
    where c4: "copy_uint32s (ptr_ClusterList b) h3 = Inr (clusterList, h4)"
    by (auto simp: copy_uint32s_def load_ptr_def new_uint32s_def split: option.splits)
  show ?thesis
    by (simp add: Copy_def b ap segs n1 c2 c3 c4 new_path_def)
qed


theorem Copy_total_witness:
  "store_ok store0 \<and> load_path store0 0 = Some value0 \<and> ASPath value0 \<noteq> None
   \<and> Copy (Some 0) store0 = Inr (Some 12, store1)"
proof -
  have p: "ASPath value0 \<noteq> None"
    by (simp add: value0_def)
  from Copy_total [OF store_ok_store0 load_store0 p] store_ok_store0 load_store0 p Copy_store0
  show ?thesis by simp
qed

end
